theory Spec2Isabelle
  imports Main
begin

section \<open>The nested-set table of go-nested-set (nested\_set.go)\<close>

text \<open>
  The package keeps a forest in one SQL table. The functions of nested\_set.go never hold the tree
  in memory: each one builds a few SQL statements from the fields of the records the caller hands
  in and sends them to the database through gorm. The embedding therefore takes the table as the
  state: a list of rows, together with the list of statements sent so far. Each gorm call of the
  source is one function on that state.

  The list of statements holds what is sent to the database, in order: the reads and writes of
  rows and the \<open>BEGIN\<close>, \<open>COMMIT\<close> and \<open>ROLLBACK\<close> of \<open>Transaction\<close>. A statement carries
  the conditions of the session it is built on and its own, as the SQL in the comments of the
  source has it.

  Integers: the Go fields are \<open>int\<close>/\<open>int64\<close> and the arithmetic on columns is done by the
  database; both are modelled by \<open>int\<close>, so the development speaks about coordinates away from
  the 64-bit boundary.

  Errors: \<open>parseNode\<close> returns its own error for a value gorm cannot parse. The text of a
  statement is built by \<open>formatSQL\<close> from the column names \<open>parseNode\<close> has bound; a
  statement built from a name that is not bound is not SQL for the table, and the database
  refuses it: the \<open>err != nil\<close> returns of the source are taken on that error. A statement
  that is SQL for the table is taken to be answered. A run-time panic of the reflection in
  \<open>parseNode\<close> is the outcome \<open>Panic\<close>: the call does not return, and an open transaction is
  rolled back. The handle the caller passes is a plain session, outside any transaction, and
  records are passed by pointer.
\<close>

subsection \<open>Data\<close>

text \<open>\<open>type MoveDirection int\<close> with its three constants.\<close>

type_synonym MoveDirection = int

definition MoveDirectionLeft :: MoveDirection where "MoveDirectionLeft = - 1"
definition MoveDirectionRight :: MoveDirection where "MoveDirectionRight = 1"
definition MoveDirectionInner :: MoveDirection where "MoveDirectionInner = 0"

text \<open>
  The six columns of the table that carry a \<open>nestedset\<close> tag. \<open>ParentID\<close> is a
  \<open>sql.NullInt64\<close>: \<open>None\<close> is the invalid (NULL) value.
\<close>

record columns =
  ID :: int
  ParentID :: "int option"
  Depth :: int
  Rgt :: int
  Lft :: int
  ChildrenCount :: int

text \<open>
  \<open>nodeItem\<close>: the six values read from a record and \<open>DbNames\<close>, of which the keys are kept:
  the tags for which \<open>parseNode\<close> has bound a column name. \<open>TableName\<close> only names the table
  and is left out.
\<close>

record nodeItem = columns +
  DbNames :: "string set"

text \<open>
  A row of the table: the six columns and the values of the columns tagged \<open>scope\<close> (any
  number of them, hence a type parameter).
\<close>

record 's row = columns +
  Scope :: 's

text \<open>
  What a caller can pass for \<open>source\<close>, \<open>parent\<close>, \<open>node\<close> and \<open>to\<close> (an
  \<open>interface{}\<close>): a value that \<open>stmt.Parse\<close> rejects, or a record of a struct type gorm
  parses. Of the struct type the fields are kept, in order; of a field its \<open>nestedset\<close> tag
  (empty when it has none), the kind of its Go type (an integer, as \<open>v.Int()\<close> needs; a
  \<open>sql.NullInt64\<close>, as the type assertion needs; anything else) and whether it is a field of
  gorm's schema (an unexported or an embedded field is not, and \<open>LookUpField\<close> returns nil for
  it). Of the record the values it holds for the columns of the table are kept: a field tagged
  \<open>k\<close> holds the value of column \<open>k\<close>.
\<close>

datatype kind = IntKind | NullInt64Kind | OtherKind

record field =
  Tag :: string
  Kind :: kind
  InSchema :: bool

datatype 's source = NotAModel | Struct "field list" "'s row"

text \<open>
  \<open>schemaField t k\<close> is a field of gorm's schema with tag \<open>t\<close> and kind \<open>k\<close>. \<open>Model r\<close>
  is a record of a struct type that carries the six tags and the scope tag on fields of the kinds
  the package reads, as in the package's documentation.
\<close>

definition schemaField :: "string \<Rightarrow> kind \<Rightarrow> field" where
  "schemaField t k = \<lparr>Tag = t, Kind = k, InSchema = True\<rparr>"

definition Model :: "'s row \<Rightarrow> 's source" where
  "Model r =
     Struct [schemaField ''id'' IntKind, schemaField ''parent_id'' NullInt64Kind, schemaField ''depth'' IntKind,
             schemaField ''rgt'' IntKind, schemaField ''lft'' IntKind, schemaField ''children_count'' IntKind,
             schemaField ''scope'' OtherKind] r"

text \<open>
  \<open>InvalidSource\<close> is the error of \<open>parseNode\<close> ("Invalid source, must be a valid Gorm Model
  instance"), \<open>StoreError\<close> the error of the database for a statement it refuses, \<open>Panic\<close> a
  run-time panic.
\<close>

datatype error = InvalidSource | StoreError | Panic

datatype stmt = BEGIN | COMMIT | ROLLBACK | SELECT | UPDATE | INSERT

record 's db =
  rows :: "'s row list"
  stmts :: "stmt list"

subsection \<open>formatSQL\<close>

text \<open>
  \<open>formatSQL\<close> replaces the placeholder \<open>:k\<close> by the column name for every key \<open>k\<close> of
  \<open>DbNames\<close>; \<open>dbNames[k]\<close> is the empty string for any other \<open>k\<close>. Of the text of a
  statement the model keeps the names it is built from (placeholders and looked-up column
  names): \<open>formatSQL\<close> tells whether all of them are bound, that is, whether the text is SQL
  for the table.
\<close>

definition formatSQL :: "string list \<Rightarrow> nodeItem \<Rightarrow> bool" where
  "formatSQL names node \<longleftrightarrow> set names \<subseteq> DbNames node"

text \<open>The six tags of the \<open>switch\<close> in \<open>parseNode\<close> that bind a column name.\<close>

definition columnNames :: "string list" where
  "columnNames = [''id'', ''parent_id'', ''depth'', ''rgt'', ''lft'', ''children_count'']"

subsection \<open>The gorm calls\<close>

text \<open>\<open>sent s d\<close>: the statement \<open>s\<close> goes to the database.\<close>

definition sent :: "stmt \<Rightarrow> 's db \<Rightarrow> 's db" where
  "sent s d = d\<lparr>stmts := stmts d @ [s]\<rparr>"

text \<open>
  A chain of \<open>Where\<close> conditions is a predicate on rows. The first argument of a call tells
  whether its text is SQL for the table; if not, the statement is sent and refused.
\<close>

definition Pluck_id ::
  "bool \<Rightarrow> ('s row \<Rightarrow> bool) \<Rightarrow> 's db \<Rightarrow> (error option \<times> int list) \<times> 's db" where
  "Pluck_id sql cond d =
     (if sql then (None, map ID (filter cond (rows d))) else (Some StoreError, []),
      sent SELECT d)"

definition Count ::
  "bool \<Rightarrow> ('s row \<Rightarrow> bool) \<Rightarrow> 's db \<Rightarrow> (error option \<times> int) \<times> 's db" where
  "Count sql cond d =
     (if sql then (None, int (length (filter cond (rows d)))) else (Some StoreError, 0),
      sent SELECT d)"

definition Updates ::
  "bool \<Rightarrow> ('s row \<Rightarrow> bool) \<Rightarrow> ('s row \<Rightarrow> 's row) \<Rightarrow> 's db \<Rightarrow> error option \<times> 's db" where
  "Updates sql cond f d =
     (if sql
      then (None, sent UPDATE (d\<lparr>rows := map (\<lambda>r. if cond r then f r else r) (rows d)\<rparr>))
      else (Some StoreError, sent UPDATE d))"

fun maxRgt :: "int list \<Rightarrow> int option" where
  "maxRgt [] = None"
| "maxRgt (x # xs) = (case maxRgt xs of None \<Rightarrow> Some x | Some m \<Rightarrow> Some (max x m))"

text \<open>
  \<open>Select(rgt).Order("rgt desc").First(&lastNode)\<close>: the largest \<open>rgt\<close> among the rows that
  satisfy the condition. \<open>None\<close> stands for \<open>rst.Error != nil\<close>: "record not found", or the
  statement refused.
\<close>

definition First_rgt_desc :: "bool \<Rightarrow> ('s row \<Rightarrow> bool) \<Rightarrow> 's db \<Rightarrow> int option \<times> 's db" where
  "First_rgt_desc sql cond d =
     (if sql then maxRgt (map Rgt (filter cond (rows d))) else None, sent SELECT d)"

text \<open>
  \<open>db.Create(source)\<close>: the record becomes a new row, with the values it holds at that
  moment.
\<close>

definition Create_row :: "'s source \<Rightarrow> 's db \<Rightarrow> error option \<times> 's db" where
  "Create_row src d =
     (case src of
        NotAModel \<Rightarrow> (Some InvalidSource, d)
      | Struct fs r \<Rightarrow> (None, sent INSERT (d\<lparr>rows := rows d @ [r]\<rparr>)))"

text \<open>
  \<open>db.Model(parent)\<close> addresses the row by the primary key of the record, the value it holds
  for the id column.
\<close>

definition primaryKey :: "'s source \<Rightarrow> int" where
  "primaryKey src = (case src of NotAModel \<Rightarrow> 0 | Struct fs r \<Rightarrow> ID r)"

text \<open>
  \<open>db.Transaction(fc)\<close> begins a transaction, runs \<open>fc\<close> and commits; when \<open>fc\<close> returns an
  error or panics, the writes are rolled back.
\<close>

definition Transaction ::
  "('s db \<Rightarrow> error option \<times> 's db) \<Rightarrow> 's db \<Rightarrow> error option \<times> 's db" where
  "Transaction fc d =
     (case fc (sent BEGIN d) of
        (None, d') \<Rightarrow> (None, sent COMMIT d')
      | (Some e, d') \<Rightarrow> (Some e, sent ROLLBACK (d'\<lparr>rows := rows d\<rparr>)))"

subsection \<open>parseNode\<close>

text \<open>
  The loop over the fields of the record. Line 64 dereferences what \<open>LookUpField\<close> returned,
  for every field; the \<open>switch\<close> then reads the value of a tagged field by \<open>v.Int()\<close>, or by
  the assertion to \<open>sql.NullInt64\<close> for \<open>parent_id\<close>, and binds the column name of the tag; a
  field tagged \<open>scope\<close> narrows the session by one \<open>Where\<close>. There is no other case, and
  nothing is checked after the loop: for a tag no field carries, the value stays zero and the
  name stays unbound.
\<close>

fun parseFields ::
  "field list \<Rightarrow> 's row \<Rightarrow> ('s row \<Rightarrow> bool) \<times> nodeItem \<Rightarrow> error + (('s row \<Rightarrow> bool) \<times> nodeItem)" where
  "parseFields [] r acc = Inr acc"
| "parseFields (f # fs) r (tx, item) =
     (if \<not> InSchema f then Inl Panic
      else if Tag f = ''id'' then
        (if Kind f = IntKind
         then parseFields fs r (tx, item\<lparr>ID := ID r, DbNames := insert ''id'' (DbNames item)\<rparr>)
         else Inl Panic)
      else if Tag f = ''parent_id'' then
        (if Kind f = NullInt64Kind
         then parseFields fs r
                (tx, item\<lparr>ParentID := ParentID r, DbNames := insert ''parent_id'' (DbNames item)\<rparr>)
         else Inl Panic)
      else if Tag f = ''depth'' then
        (if Kind f = IntKind
         then parseFields fs r
                (tx, item\<lparr>Depth := Depth r, DbNames := insert ''depth'' (DbNames item)\<rparr>)
         else Inl Panic)
      else if Tag f = ''rgt'' then
        (if Kind f = IntKind
         then parseFields fs r (tx, item\<lparr>Rgt := Rgt r, DbNames := insert ''rgt'' (DbNames item)\<rparr>)
         else Inl Panic)
      else if Tag f = ''lft'' then
        (if Kind f = IntKind
         then parseFields fs r (tx, item\<lparr>Lft := Lft r, DbNames := insert ''lft'' (DbNames item)\<rparr>)
         else Inl Panic)
      else if Tag f = ''children_count'' then
        (if Kind f = IntKind
         then parseFields fs r
                (tx, item\<lparr>ChildrenCount := ChildrenCount r,
                           DbNames := insert ''children_count'' (DbNames item)\<rparr>)
         else Inl Panic)
      else if Tag f = ''scope'' then parseFields fs r (\<lambda>x. tx x \<and> Scope x = Scope r, item)
      else parseFields fs r (tx, item))"

definition parseNode :: "'s source \<Rightarrow> error + (('s row \<Rightarrow> bool) \<times> nodeItem)" where
  "parseNode src =
     (case src of
        NotAModel \<Rightarrow> Inl InvalidSource
      | Struct fs r \<Rightarrow>
          parseFields fs r
            (\<lambda>x. True,
             \<lparr>ID = 0, ParentID = None, Depth = 0, Rgt = 0, Lft = 0, ChildrenCount = 0,
              DbNames = {}\<rparr>))"

text \<open>What \<open>parseNode\<close> reads from a record that carries the six tags.\<close>

definition parsed :: "'s row \<Rightarrow> nodeItem" where
  "parsed r =
     \<lparr>ID = ID r, ParentID = ParentID r, Depth = Depth r, Rgt = Rgt r, Lft = Lft r,
      ChildrenCount = ChildrenCount r,
      DbNames = {''id'', ''parent_id'', ''depth'', ''rgt'', ''lft'', ''children_count''}\<rparr>"

subsection \<open>Create\<close>

text \<open>
  The loop that writes \<open>lft\<close>, \<open>rgt\<close> and \<open>depth\<close> into the record by reflection, for the
  fields that carry these tags.
\<close>

fun setFieldsLoop :: "field list \<Rightarrow> int \<Rightarrow> int \<Rightarrow> int \<Rightarrow> 's row \<Rightarrow> 's row" where
  "setFieldsLoop [] setToLft setToRgt setDepth r = r"
| "setFieldsLoop (f # fs) setToLft setToRgt setDepth r =
     setFieldsLoop fs setToLft setToRgt setDepth
       (if Tag f = ''lft'' then r\<lparr>Lft := setToLft\<rparr>
        else if Tag f = ''rgt'' then r\<lparr>Rgt := setToRgt\<rparr>
        else if Tag f = ''depth'' then r\<lparr>Depth := setDepth\<rparr>
        else r)"

definition setFields :: "'s source \<Rightarrow> int \<Rightarrow> int \<Rightarrow> int \<Rightarrow> 's source" where
  "setFields src setToLft setToRgt setDepth =
     (case src of
        NotAModel \<Rightarrow> NotAModel
      | Struct fs r \<Rightarrow> Struct fs (setFieldsLoop fs setToLft setToRgt setDepth r))"

text \<open>
  The root case reads the largest \<open>rgt\<close> of the scope; the child case takes \<open>Rgt\<close> and
  \<open>Depth\<close> from the parsed parent record, shifts the bounds of the scope and increments
  \<open>children_count\<close> of the row with the parent's key (\<open>db.Model(parent)\<close>, not the scoped
  session). The column names of all four statements are those of the new record.
\<close>

definition Create :: "'s db \<Rightarrow> 's source \<Rightarrow> 's source option \<Rightarrow> error option \<times> 's db" where
  "Create d0 src parent =
     Transaction (\<lambda>d.
       case parseNode src of
         Inl err \<Rightarrow> (Some err, d)
       | Inr (tx, target) \<Rightarrow>
          (case parent of
             None \<Rightarrow>
               (let (lastNode, d1) = First_rgt_desc (formatSQL [''rgt''] target) tx d;
                    setToLft = (case lastNode of None \<Rightarrow> 1 | Some r \<Rightarrow> r + 1);
                    setToRgt = (case lastNode of None \<Rightarrow> 2 | Some r \<Rightarrow> setToLft + 1)
                in Create_row (setFields src setToLft setToRgt 0) d1)
           | Some p \<Rightarrow>
              (case parseNode p of
                 Inl err \<Rightarrow> (Some err, d)
               | Inr (_, targetParent) \<Rightarrow>
                  (let setToLft = Rgt targetParent;
                       setToRgt = Rgt targetParent + 1;
                       setDepth = Depth targetParent + 1
                   in case Updates (formatSQL [''rgt''] target)
                             (\<lambda>r. tx r \<and> Rgt r \<ge> setToLft) (\<lambda>r. r\<lparr>Rgt := Rgt r + 2\<rparr>) d of
                        (Some err, d1) \<Rightarrow> (Some err, d1)
                      | (None, d1) \<Rightarrow>
                         (case Updates (formatSQL [''lft''] target)
                                 (\<lambda>r. tx r \<and> Lft r > setToLft) (\<lambda>r. r\<lparr>Lft := Lft r + 2\<rparr>) d1 of
                            (Some err, d2) \<Rightarrow> (Some err, d2)
                          | (None, d2) \<Rightarrow>
                             (case Updates (formatSQL [''children_count''] target)
                                     (\<lambda>r. ID r = primaryKey p)
                                     (\<lambda>r. r\<lparr>ChildrenCount := ChildrenCount r + 1\<rparr>) d2 of
                                (Some err, d3) \<Rightarrow> (Some err, d3)
                              | (None, d3) \<Rightarrow>
                                  Create_row (setFields src setToLft setToRgt setDepth) d3)))))) d0"

subsection \<open>MoveTo and its helpers\<close>

text \<open>
  \<open>tx\<close> is the session the statements are built on; \<open>targetNode\<close> supplies the column names.
\<close>

definition moveAffected ::
  "('s row \<Rightarrow> bool) \<Rightarrow> nodeItem \<Rightarrow> int \<Rightarrow> int \<Rightarrow> int \<Rightarrow> 's db \<Rightarrow> error option \<times> 's db" where
  "moveAffected tx targetNode gte lte step =
     Updates (formatSQL [''lft'', ''rgt''] targetNode)
       (\<lambda>r. tx r \<and> ((gte \<le> Lft r \<and> Lft r \<le> lte) \<or> (gte \<le> Rgt r \<and> Rgt r \<le> lte)))
       (\<lambda>r. r\<lparr>Lft := (if Lft r \<ge> gte then Lft r + step else Lft r),
              Rgt := (if Rgt r \<le> lte then Rgt r + step else Rgt r)\<rparr>)"

definition moveTarget ::
  "('s row \<Rightarrow> bool) \<Rightarrow> nodeItem \<Rightarrow> int \<Rightarrow> int list \<Rightarrow> int \<Rightarrow> int \<Rightarrow> int option \<Rightarrow> 's db
     \<Rightarrow> error option \<times> 's db" where
  "moveTarget tx targetNode targetID targetIds step depthChange newParentID d =
     (case (if length targetIds > 0
            then Updates (formatSQL [''id'', ''lft'', ''rgt'', ''depth''] targetNode)
                   (\<lambda>r. tx r \<and> ID r \<in> set targetIds)
                   (\<lambda>r. r\<lparr>Lft := Lft r + step, Rgt := Rgt r + step,
                          Depth := Depth r + depthChange\<rparr>) d
            else (None, d)) of
        (Some err, d1) \<Rightarrow> (Some err, d1)
      | (None, d1) \<Rightarrow>
          Updates (formatSQL [''id'', ''parent_id''] targetNode)
            (\<lambda>r. tx r \<and> ID r = targetID) (\<lambda>r. r\<lparr>ParentID := newParentID\<rparr>) d1)"

text \<open>
  \<open>syncChildrenCount\<close> runs the same two statements for the old and for the new parent, each
  only when the parent id is valid: \<open>syncParent\<close> is one such block.
\<close>

definition syncParent ::
  "('s row \<Rightarrow> bool) \<Rightarrow> nodeItem \<Rightarrow> int option \<Rightarrow> 's db \<Rightarrow> error option \<times> 's db" where
  "syncParent tx targetNode parentID d =
     (case parentID of
        None \<Rightarrow> (None, d)
      | Some pid \<Rightarrow>
          (case Count (formatSQL [''parent_id''] targetNode)
                  (\<lambda>r. tx r \<and> ParentID r = Some pid) d of
             ((Some err, _), d1) \<Rightarrow> (Some err, d1)
           | ((None, parentCount), d1) \<Rightarrow>
               Updates (formatSQL [''id'', ''children_count''] targetNode)
                 (\<lambda>r. tx r \<and> ID r = pid) (\<lambda>r. r\<lparr>ChildrenCount := parentCount\<rparr>) d1))"

definition syncChildrenCount ::
  "('s row \<Rightarrow> bool) \<Rightarrow> nodeItem \<Rightarrow> int option \<Rightarrow> int option \<Rightarrow> 's db \<Rightarrow> error option \<times> 's db" where
  "syncChildrenCount tx targetNode oldParentID newParentID d =
     (case syncParent tx targetNode oldParentID d of
        (Some err, d1) \<Rightarrow> (Some err, d1)
      | (None, d1) \<Rightarrow> syncParent tx targetNode newParentID d1)"

text \<open>
  The two moving branches of \<open>moveToRightOfPosition\<close> only set \<open>affectedGte\<close>,
  \<open>affectedLte\<close>, \<open>affectedStep\<close> and \<open>moveStep\<close>; the third returns.
\<close>

definition moveToRightOfPosition ::
  "('s row \<Rightarrow> bool) \<Rightarrow> nodeItem \<Rightarrow> int \<Rightarrow> int \<Rightarrow> int option \<Rightarrow> 's db
     \<Rightarrow> error option \<times> 's db" where
  "moveToRightOfPosition tx targetNode position depthChange newParentID =
     Transaction (\<lambda>d.
       let oldParentID = ParentID targetNode;
           targetRight = Rgt targetNode;
           targetLeft = Lft targetNode;
           targetWidth = targetRight - targetLeft + 1
       in case Pluck_id (formatSQL [''lft'', ''rgt''] targetNode)
                 (\<lambda>r. tx r \<and> Lft r \<ge> targetLeft \<and> Rgt r \<le> targetRight) d of
            ((Some err, _), d1) \<Rightarrow> (Some err, d1)
          | ((None, targetIds), d1) \<Rightarrow>
             (let moveStep = position - targetLeft + 1
              in if moveStep = 0 then (None, d1)
                 else
                   (let affectedGte = (if moveStep < 0 then position + 1 else targetRight + 1);
                        affectedLte = (if moveStep < 0 then targetLeft - 1 else position);
                        affectedStep = (if moveStep < 0 then targetWidth else targetWidth * - 1);
                        moveStep = (if moveStep < 0 then moveStep else moveStep - targetWidth)
                    in case moveAffected tx targetNode affectedGte affectedLte affectedStep d1 of
                         (Some err, d2) \<Rightarrow> (Some err, d2)
                       | (None, d2) \<Rightarrow>
                          (case moveTarget tx targetNode (ID targetNode) targetIds moveStep
                                  depthChange newParentID d2 of
                             (Some err, d3) \<Rightarrow> (Some err, d3)
                           | (None, d3) \<Rightarrow>
                               syncChildrenCount tx targetNode oldParentID newParentID d3))))"

text \<open>
  \<open>MoveTo\<close> parses both records, then replaces the session \<open>parseNode\<close> returned by
  \<open>db.Table(targetNode.TableName)\<close>: the whole table.
\<close>

definition MoveTo ::
  "'s db \<Rightarrow> 's source \<Rightarrow> 's source \<Rightarrow> MoveDirection \<Rightarrow> error option \<times> 's db" where
  "MoveTo d node to direction =
     (case parseNode node of
        Inl err \<Rightarrow> (Some err, d)
      | Inr (_, targetNode) \<Rightarrow>
         (case parseNode to of
            Inl err \<Rightarrow> (Some err, d)
          | Inr (_, toNode) \<Rightarrow>
             (let tx = (\<lambda>r. True) in
              if direction = MoveDirectionLeft \<or> direction = MoveDirectionRight then
                moveToRightOfPosition tx targetNode
                  (if direction = MoveDirectionLeft then Lft toNode - 1 else Rgt toNode)
                  (Depth toNode - Depth targetNode) (ParentID toNode) d
              else
                moveToRightOfPosition tx targetNode (Lft toNode)
                  (Depth toNode + 1 - Depth targetNode) (Some (ID toNode)) d)))"

subsection \<open>The range shift as the specification words it\<close>

text \<open>
  Written from the contract of the specification's RangeShifter, not from the source: for every
  row of the session, \<open>step\<close> is added to \<open>left\<close> if \<open>left\<close> lies in \<open>[lo, hi]\<close> and,
  independently, to \<open>right\<close> if \<open>right\<close> lies in \<open>[lo, hi]\<close>.
\<close>

definition RangeShifter ::
  "('s row \<Rightarrow> bool) \<Rightarrow> int \<Rightarrow> int \<Rightarrow> int \<Rightarrow> 's row list \<Rightarrow> 's row list" where
  "RangeShifter inScope lo hi step rs =
     map (\<lambda>r. if inScope r
               then r\<lparr>Lft := (if lo \<le> Lft r \<and> Lft r \<le> hi then Lft r + step else Lft r),
                      Rgt := (if lo \<le> Rgt r \<and> Rgt r \<le> hi then Rgt r + step else Rgt r)\<rparr>
               else r) rs"

subsection \<open>The statements, row by row\<close>

text \<open>
  What the \<open>UPDATE\<close> of \<open>moveAffected\<close> and the two of \<open>moveTarget\<close> do to one row. These
  are derived views: the lemmas \<open>rows_moveAffected\<close> and \<open>rows_moveTarget\<close> below relate
  them to the functions above.
\<close>

definition affectedRow :: "('s row \<Rightarrow> bool) \<Rightarrow> int \<Rightarrow> int \<Rightarrow> int \<Rightarrow> 's row \<Rightarrow> 's row" where
  "affectedRow tx gte lte step r =
     (if tx r \<and> ((gte \<le> Lft r \<and> Lft r \<le> lte) \<or> (gte \<le> Rgt r \<and> Rgt r \<le> lte))
      then r\<lparr>Lft := (if Lft r \<ge> gte then Lft r + step else Lft r),
             Rgt := (if Rgt r \<le> lte then Rgt r + step else Rgt r)\<rparr>
      else r)"

definition targetRow ::
  "('s row \<Rightarrow> bool) \<Rightarrow> int \<Rightarrow> int list \<Rightarrow> int \<Rightarrow> int \<Rightarrow> int option \<Rightarrow> 's row \<Rightarrow> 's row" where
  "targetRow tx targetID targetIds step depthChange newParentID r =
     (let r1 = (if tx r \<and> ID r \<in> set targetIds
                then r\<lparr>Lft := Lft r + step, Rgt := Rgt r + step, Depth := Depth r + depthChange\<rparr>
                else r)
      in if tx r1 \<and> ID r1 = targetID then r1\<lparr>ParentID := newParentID\<rparr> else r1)"

text \<open>
  The three \<open>UPDATE\<close>s of \<open>Create\<close> with a parent, for the scope \<open>sc\<close> of the new record,
  the right bound \<open>P\<close> and the id \<open>pid\<close> of the parent record.
\<close>

definition openedRow :: "'s \<Rightarrow> int \<Rightarrow> int \<Rightarrow> 's row \<Rightarrow> 's row" where
  "openedRow sc P pid r =
     r\<lparr>Rgt := (if Scope r = sc \<and> Rgt r \<ge> P then Rgt r + 2 else Rgt r),
       Lft := (if Scope r = sc \<and> Lft r > P then Lft r + 2 else Lft r),
       ChildrenCount := (if ID r = pid then ChildrenCount r + 1 else ChildrenCount r)\<rparr>"

subsection \<open>The invariants\<close>

text \<open>
  The source has one notion of a node's subtree: the rows whose interval lies within the node's
  (the \<open>Pluck\<close> of \<open>moveToRightOfPosition\<close>). The descendants of a node are the rows
  strictly inside its interval. \<open>nestedSet\<close> states the three coordinate invariants for the
  rows of one scope; \<open>invariants\<close> states them for every scope that occurs in the table.
\<close>

definition disjointOrNested :: "'s row \<Rightarrow> 's row \<Rightarrow> bool" where
  "disjointOrNested a b \<longleftrightarrow>
     Rgt a < Lft b \<or> Rgt b < Lft a
     \<or> (Lft a < Lft b \<and> Rgt b < Rgt a) \<or> (Lft b < Lft a \<and> Rgt a < Rgt b)"

definition descendantCount :: "'s row list \<Rightarrow> 's row \<Rightarrow> nat" where
  "descendantCount rs n = length (filter (\<lambda>r. Lft n < Lft r \<and> Rgt r < Rgt n) rs)"

definition nestedSet :: "'s row list \<Rightarrow> bool" where
  "nestedSet rs \<longleftrightarrow>
     (\<forall>r \<in> set rs. Lft r < Rgt r)
     \<and> (\<forall>a \<in> set rs. \<forall>b \<in> set rs. a \<noteq> b \<longrightarrow> disjointOrNested a b)
     \<and> (\<forall>r \<in> set rs. Rgt r - Lft r = 2 * int (descendantCount rs r) + 1)"

definition invariants :: "'s db \<Rightarrow> bool" where
  "invariants d \<longleftrightarrow>
     (\<forall>x \<in> set (rows d). nestedSet (filter (\<lambda>r. Scope r = Scope x) (rows d)))"

subsection \<open>Nested intervals\<close>

text \<open>
  The three invariants depend on the bounds only. They are restated for a list of intervals
  (\<open>nestedIntervals\<close>), where the preservation proofs are done; \<open>iv\<close> is the interval of a row.
  \<open>relocated\<close> is what a relocation of the block \<open>[tL, tR]\<close> to the right of position
  \<open>p\<close> does to one bound, \<open>opened\<close> what the two shifts of \<open>Create\<close> do to an interval.
\<close>

type_synonym interval = "int \<times> int"

definition inside :: "interval \<Rightarrow> interval \<Rightarrow> bool" where
  "inside b a \<longleftrightarrow> fst a < fst b \<and> snd b < snd a"

definition apart :: "interval \<Rightarrow> interval \<Rightarrow> bool" where
  "apart a b \<longleftrightarrow> snd a < fst b \<or> snd b < fst a"

definition nestedIntervals :: "interval list \<Rightarrow> bool" where
  "nestedIntervals ivs \<longleftrightarrow>
     distinct ivs
     \<and> (\<forall>a \<in> set ivs. fst a < snd a)
     \<and> (\<forall>a \<in> set ivs. \<forall>b \<in> set ivs. a \<noteq> b \<longrightarrow> apart a b \<or> inside a b \<or> inside b a)
     \<and> (\<forall>a \<in> set ivs. snd a - fst a = 2 * int (length (filter (\<lambda>b. inside b a) ivs)) + 1)"




definition iv :: "'s row \<Rightarrow> interval" where
  "iv r = (Lft r, Rgt r)"

subsection \<open>Keys and children counts\<close>

text \<open>
  \<open>keyed\<close>: the fields of a row that a children count does not touch. \<open>synced\<close>: the rows
  with id \<open>pid\<close> carry the number of rows whose parent id is \<open>pid\<close>, which is what
  \<open>syncChildrenCount\<close> establishes for a parent.
\<close>

definition keyed :: "'s row \<Rightarrow> int \<times> int \<times> int \<times> int \<times> int option" where
  "keyed r = (ID r, Lft r, Rgt r, Depth r, ParentID r)"

definition synced :: "'s row list \<Rightarrow> int option \<Rightarrow> bool" where
  "synced rs parentID \<longleftrightarrow>
     (case parentID of
        None \<Rightarrow> True
      | Some pid \<Rightarrow>
          (\<forall>r \<in> set rs. ID r = pid \<longrightarrow>
             ChildrenCount r = int (length (filter (\<lambda>x. ParentID x = Some pid) rs))))"

subsection \<open>Sequences of calls\<close>






subsection \<open>Example tables\<close>

text \<open>
  \<open>mkRow id parent depth left right count scope\<close>. \<open>scenarioA\<close> is the table of the
  specification's Scenario A: a root with two children.
\<close>

definition mkRow :: "int \<Rightarrow> int option \<Rightarrow> int \<Rightarrow> int \<Rightarrow> int \<Rightarrow> int \<Rightarrow> 's \<Rightarrow> 's row" where
  "mkRow i p dp l r c s =
     \<lparr>ID = i, ParentID = p, Depth = dp, Rgt = r, Lft = l, ChildrenCount = c, Scope = s\<rparr>"

definition rowA :: "nat row" where "rowA = mkRow 1 None 0 1 6 2 0"
definition rowB :: "nat row" where "rowB = mkRow 2 (Some 1) 1 2 3 0 0"
definition rowC :: "nat row" where "rowC = mkRow 3 (Some 1) 1 4 5 0 0"
definition scenarioA :: "nat db" where "scenarioA = \<lparr>rows = [rowA, rowB, rowC], stmts = []\<rparr>"

definition straddle :: "nat db" where
  "straddle = \<lparr>rows = [mkRow 1 None 0 1 8 3 0, mkRow 2 (Some 1) 1 2 5 1 0, mkRow 3 (Some 2) 2 3 4 0 0,
                       mkRow 4 (Some 1) 1 6 7 0 0],
               stmts = []\<rparr>"

definition twoScopes :: "nat db" where
  "twoScopes = \<lparr>rows = [mkRow 1 None 0 1 2 0 1, mkRow 2 None 0 3 4 0 1,
                         mkRow 3 None 0 1 4 1 2, mkRow 4 (Some 3) 1 2 3 0 2],
                 stmts = []\<rparr>"

definition staleParent :: "nat db" where
  "staleParent = \<lparr>rows = [mkRow 1 None 0 1 4 1 0, mkRow 2 (Some 1) 1 2 3 0 0], stmts = []\<rparr>"

text \<open>
  \<open>noBounds r\<close> is a record of a struct type whose fields for the two bounds carry no
  \<open>nestedset\<close> tag; \<open>wrongParent r\<close> is one whose \<open>parent_id\<close> tag is on a plain integer.
\<close>

definition noBounds :: "'s row \<Rightarrow> 's source" where
  "noBounds r =
     Struct [schemaField ''id'' IntKind, schemaField ''parent_id'' NullInt64Kind,
             schemaField ''depth'' IntKind, schemaField [] IntKind, schemaField [] IntKind,
             schemaField ''children_count'' IntKind, schemaField ''scope'' OtherKind] r"

definition wrongParent :: "'s row \<Rightarrow> 's source" where
  "wrongParent r =
     Struct [schemaField ''id'' IntKind, schemaField ''parent_id'' IntKind,
             schemaField ''depth'' IntKind, schemaField ''rgt'' IntKind, schemaField ''lft'' IntKind,
             schemaField ''children_count'' IntKind, schemaField ''scope'' OtherKind] r"

definition ownSubtree :: "nat db" where
  "ownSubtree = \<lparr>rows = [mkRow 1 None 0 1 8 1 0, mkRow 2 (Some 1) 1 2 7 2 0,
                          mkRow 3 (Some 2) 2 3 4 0 0, mkRow 4 (Some 2) 2 5 6 0 0],
                  stmts = []\<rparr>"

section \<open>Basic facts\<close>

lemma sent_sel [simp]: "rows (sent s d) = rows d" "stmts (sent s d) = stmts d @ [s]"
  by (simp_all add: sent_def)

lemma Updates_sql [simp]:
  "Updates True c f d = (None, sent UPDATE (d\<lparr>rows := map (\<lambda>r. if c r then f r else r) (rows d)\<rparr>))"
  "Updates False c f d = (Some StoreError, sent UPDATE d)"
  by (simp_all add: Updates_def)

lemma parsed_sel [simp]:
  "ID (parsed r) = ID r" "ParentID (parsed r) = ParentID r"
  "Depth (parsed r) = Depth r" "Rgt (parsed r) = Rgt r"
  "Lft (parsed r) = Lft r" "ChildrenCount (parsed r) = ChildrenCount r"
  by (simp_all add: parsed_def)

lemma parseNode_Model [simp]:
  "parseNode (Model r) = Inr (\<lambda>x. Scope x = Scope r, parsed r)"
  by (auto simp: parseNode_def Model_def schemaField_def parsed_def)

lemma setFields_Model [simp]:
  "setFields (Model s) l rt dp = Model (s\<lparr>Lft := l, Rgt := rt, Depth := dp\<rparr>)"
  by (simp add: setFields_def Model_def schemaField_def)

lemma Create_row_Model [simp]:
  "Create_row (Model r) d = (None, sent INSERT (d\<lparr>rows := rows d @ [r]\<rparr>))"
  by (simp add: Create_row_def Model_def)

lemma primaryKey_Model [simp]: "primaryKey (Model r) = ID r"
  by (simp add: primaryKey_def Model_def)

lemma formatSQL_sub:
  assumes "formatSQL columnNames t" and "set names \<subseteq> set columnNames"
  shows "formatSQL names t"
  using assms by (auto simp: formatSQL_def)

lemma formatSQL_columnNames [simp]:
  assumes "formatSQL columnNames t"
  shows "formatSQL [''lft'', ''rgt''] t" "formatSQL [''id'', ''lft'', ''rgt'', ''depth''] t"
    "formatSQL [''id'', ''parent_id''] t" "formatSQL [''parent_id''] t"
    "formatSQL [''id'', ''children_count''] t" "formatSQL [''rgt''] t" "formatSQL [''lft''] t"
    "formatSQL [''children_count''] t"
  by (rule formatSQL_sub [OF assms], simp add: columnNames_def)+

lemma formatSQL_parsed [simp]: "formatSQL columnNames (parsed r)"
  by (simp add: formatSQL_def columnNames_def parsed_def)

lemma maxRgt_Max: "maxRgt xs = (if xs = [] then None else Some (Max (set xs)))"
  by (induction xs) (auto simp: max_def Max_insert)

lemmas ex_defs = scenarioA_def rowA_def rowB_def rowC_def mkRow_def

lemma id_in_plucked:
  assumes "distinct (map ID (filter tx xs))" and "r \<in> set xs" and "tx r"
  shows "ID r \<in> ID ` {x \<in> set xs. tx x \<and> P x} \<longleftrightarrow> P r"
proof
  assume "ID r \<in> ID ` {x \<in> set xs. tx x \<and> P x}"
  then obtain x where x: "x \<in> set xs" "tx x" "P x" "ID x = ID r" by auto
  from assms(1) have "inj_on ID (set (filter tx xs))" by (simp add: distinct_map)
  with x assms(2,3) have "x = r" by (auto dest: inj_onD)
  with x show "P r" by simp
next
  assume "P r" with assms show "ID r \<in> ID ` {x \<in> set xs. tx x \<and> P x}" by auto
qed

text \<open>The helpers of \<open>MoveTo\<close> when every column name is bound.\<close>

lemma moveAffected_bound:
  assumes "formatSQL columnNames t"
  shows "moveAffected tx t gte lte step d
         = (None, sent UPDATE (d\<lparr>rows := map (affectedRow tx gte lte step) (rows d)\<rparr>))"
  using assms by (simp add: moveAffected_def affectedRow_def)

lemma moveTarget_bound:
  assumes "formatSQL columnNames t"
  shows "moveTarget tx t tid ids step dc np d
         = (None, d\<lparr>rows := map (targetRow tx tid ids step dc np) (rows d),
                    stmts := stmts d @ (if length ids > 0 then [UPDATE, UPDATE] else [UPDATE])\<rparr>)"
  using assms by (auto simp: moveTarget_def targetRow_def Let_def sent_def)

lemma syncParent_bound:
  assumes "formatSQL columnNames t"
  shows "syncParent tx t parentID d
         = (None,
            case parentID of
              None \<Rightarrow> d
            | Some pid \<Rightarrow>
                d\<lparr>rows := map (\<lambda>r. if tx r \<and> ID r = pid
                                    then r\<lparr>ChildrenCount :=
                                           int (length (filter (\<lambda>x. tx x \<and> ParentID x = Some pid) (rows d)))\<rparr>
                                    else r) (rows d),
                  stmts := stmts d @ [SELECT, UPDATE]\<rparr>)"
  using assms by (cases parentID) (simp_all add: syncParent_def Count_def sent_def)

lemma fst_syncParent [simp]:
  "formatSQL columnNames t \<Longrightarrow> fst (syncParent tx t parentID d) = None"
  by (simp add: syncParent_bound)

lemma syncChildrenCount_bound:
  assumes "formatSQL columnNames t"
  shows "syncChildrenCount tx t op np d = (None, snd (syncParent tx t np (snd (syncParent tx t op d))))"
proof -
  have 1: "syncParent tx t op d = (None, snd (syncParent tx t op d))"
    using fst_syncParent [OF assms, of tx op d] by (metis prod.collapse)
  have 2: "syncParent tx t np (snd (syncParent tx t op d))
      = (None, snd (syncParent tx t np (snd (syncParent tx t op d))))"
    using fst_syncParent [OF assms, of tx np "snd (syncParent tx t op d)"] by (metis prod.collapse)
  show ?thesis
    unfolding syncChildrenCount_def by (subst 1, simp, subst 2, simp)
qed

lemma coords_syncParent:
  "map (\<lambda>r. (Lft r, Rgt r, Depth r)) (rows (snd (syncParent tx t pid d)))
     = map (\<lambda>r. (Lft r, Rgt r, Depth r)) (rows d)"
  by (cases pid; cases "formatSQL [''parent_id''] t"; cases "formatSQL [''id'', ''children_count''] t")
    (simp_all add: syncParent_def Count_def comp_def)

lemma coords_sync:
  "map (\<lambda>r. (Lft r, Rgt r, Depth r)) (rows (snd (syncChildrenCount tx t op np d)))
     = map (\<lambda>r. (Lft r, Rgt r, Depth r)) (rows d)"
proof (cases "syncParent tx t op d")
  case (Pair e d1)
  then have "map (\<lambda>r. (Lft r, Rgt r, Depth r)) (rows d1) = map (\<lambda>r. (Lft r, Rgt r, Depth r)) (rows d)"
    using coords_syncParent [of tx t op d] by simp
  with Pair show ?thesis
    by (cases e) (simp_all add: syncChildrenCount_def coords_syncParent)
qed

lemma rows_moveAffected:
  "formatSQL columnNames t \<Longrightarrow>
   rows (snd (moveAffected tx t gte lte step d)) = map (affectedRow tx gte lte step) (rows d)"
  by (simp add: moveAffected_bound)

lemma rows_moveTarget:
  "formatSQL columnNames t \<Longrightarrow>
   rows (snd (moveTarget tx t tid ids step dc np d)) = map (targetRow tx tid ids step dc np) (rows d)"
  by (simp add: moveTarget_bound)

lemma sel_if_ParentID [simp]:
  "Lft (if c then r\<lparr>ParentID := v\<rparr> else r) = Lft r"
  "Rgt (if c then r\<lparr>ParentID := v\<rparr> else r) = Rgt r"
  "Depth (if c then r\<lparr>ParentID := v\<rparr> else r) = Depth r"
  "ID (if c then r\<lparr>ParentID := v\<rparr> else r) = ID r"
  "Scope (if c then r\<lparr>ParentID := v\<rparr> else r) = Scope r"
  by simp_all

lemma relocation_row:
  fixes r :: "'s row"
  assumes "sc (Scope r) \<longrightarrow> Lft r < Rgt r"
    and "sc (Scope r) \<longrightarrow> (ID r \<in> set ids \<longleftrightarrow> tL \<le> Lft r \<and> Rgt r \<le> tR)"
    and "lo = tR + 1 \<or> hi = tL - 1"
  shows "(\<lambda>r. (Lft r, Rgt r, Depth r))
           (targetRow (\<lambda>r. sc (Scope r)) tid ids mstep dc np
              (affectedRow (\<lambda>r. sc (Scope r)) lo hi astep r))
         = (if sc (Scope r) \<and> tL \<le> Lft r \<and> Rgt r \<le> tR
            then (Lft r + mstep, Rgt r + mstep, Depth r + dc)
            else if sc (Scope r)
            then (if lo \<le> Lft r \<and> Lft r \<le> hi then Lft r + astep else Lft r,
                  if lo \<le> Rgt r \<and> Rgt r \<le> hi then Rgt r + astep else Rgt r,
                  Depth r)
            else (Lft r, Rgt r, Depth r))"
proof (cases "sc (Scope r)")
  case True
  with assms have lt: "Lft r < Rgt r"
    and m: "ID r \<in> set ids \<longleftrightarrow> tL \<le> Lft r \<and> Rgt r \<le> tR" by blast+
  have sel: "ID (affectedRow (\<lambda>r. sc (Scope r)) lo hi astep r) = ID r"
    "Scope (affectedRow (\<lambda>r. sc (Scope r)) lo hi astep r) = Scope r"
    by (simp_all add: affectedRow_def)
  show ?thesis
    using lt assms(3) True
    by (simp add: targetRow_def Let_def sel m) (auto simp: affectedRow_def)
next
  case False
  then show ?thesis by (simp add: targetRow_def affectedRow_def Let_def)
qed

text \<open>\<open>moveToRightOfPosition\<close> when every column name is bound.\<close>

lemma relocation_unfold:
  assumes "formatSQL columnNames t"
  shows "moveToRightOfPosition tx t p dc np d =
     (None,
      if p - Lft t + 1 = 0 then sent COMMIT (sent SELECT (sent BEGIN d))
      else sent COMMIT
            (snd (syncChildrenCount tx t (ParentID t) np
             (snd (moveTarget tx t (ID t)
                (map ID (filter (\<lambda>r. tx r \<and> Lft t \<le> Lft r \<and> Rgt r \<le> Rgt t) (rows d)))
                (if p - Lft t + 1 < 0 then p - Lft t + 1 else p - Lft t + 1 - (Rgt t - Lft t + 1))
                dc np
                (snd (moveAffected tx t
                   (if p - Lft t + 1 < 0 then p + 1 else Rgt t + 1)
                   (if p - Lft t + 1 < 0 then Lft t - 1 else p)
                   (if p - Lft t + 1 < 0 then Rgt t - Lft t + 1 else (Rgt t - Lft t + 1) * - 1)
                   (sent SELECT (sent BEGIN d)))))))))"
  using assms
  by (simp add: moveToRightOfPosition_def Transaction_def Pluck_id_def Let_def
      moveAffected_bound moveTarget_bound syncChildrenCount_bound)

lemma stmts_syncParent: "\<exists>ys. stmts (snd (syncParent tx t pid d)) = stmts d @ ys"
  by (cases pid; cases "formatSQL [''parent_id''] t"; cases "formatSQL [''id'', ''children_count''] t")
    (simp_all add: syncParent_def Count_def)

lemma stmts_relocation:
  assumes "formatSQL columnNames t" and "p - Lft t + 1 \<noteq> 0"
  shows "fst (moveToRightOfPosition tx t p dc np d) = None
         \<and> (\<exists>rest. stmts (snd (moveToRightOfPosition tx t p dc np d))
                     = stmts d @ BEGIN # SELECT # UPDATE # rest)"
  using assms
  by (cases "ParentID t"; cases np)
    (simp_all add: relocation_unfold syncChildrenCount_bound syncParent_bound
      moveTarget_bound moveAffected_bound sent_def)

section \<open>Nested intervals under relocation and insertion\<close>





lemma length_filter_onBoth:
  "length (filter P (map f xs)) = length (filter (\<lambda>x. P (f x)) xs)"
  by (induction xs) auto






section \<open>The invariants under Create and MoveTo\<close>

lemma iv_sel [simp]: "fst (iv r) = Lft r" "snd (iv r) = Rgt r"
  by (simp_all add: iv_def)



lemma keys_moveAffected [simp]:
  assumes "formatSQL columnNames t"
  shows "map ID (rows (snd (moveAffected tx t lo hi st d))) = map ID (rows d)"
    "map Scope (rows (snd (moveAffected tx t lo hi st d))) = map Scope (rows d)"
  using assms by (simp_all add: moveAffected_bound affectedRow_def comp_def)

lemma keys_moveTarget [simp]:
  assumes "formatSQL columnNames t"
  shows "map ID (rows (snd (moveTarget tx t tid ids st dc np d))) = map ID (rows d)"
    "map Scope (rows (snd (moveTarget tx t tid ids st dc np d))) = map Scope (rows d)"
  using assms by (simp_all add: moveTarget_bound targetRow_def comp_def Let_def)

lemma keys_syncParent [simp]:
  assumes "formatSQL columnNames t"
  shows "map ID (rows (snd (syncParent tx t pid d))) = map ID (rows d)"
    "map Scope (rows (snd (syncParent tx t pid d))) = map Scope (rows d)"
    "map iv (rows (snd (syncParent tx t pid d))) = map iv (rows d)"
  using assms by (cases pid; simp add: syncParent_bound comp_def iv_def)+

lemma keys_syncChildrenCount [simp]:
  assumes "formatSQL columnNames t"
  shows "map ID (rows (snd (syncChildrenCount tx t op np d))) = map ID (rows d)"
    "map Scope (rows (snd (syncChildrenCount tx t op np d))) = map Scope (rows d)"
    "map iv (rows (snd (syncChildrenCount tx t op np d))) = map iv (rows d)"
  using assms by (simp_all add: syncChildrenCount_bound)

lemma keys_relocation:
  assumes "formatSQL columnNames t"
  shows "map ID (rows (snd (moveToRightOfPosition tx t p dc np d))) = map ID (rows d)"
    "map Scope (rows (snd (moveToRightOfPosition tx t p dc np d))) = map Scope (rows d)"
  using assms by (simp_all add: relocation_unfold)



lemma MoveTo_unfold:
  "MoveTo d (Model n) (Model t) direction =
     moveToRightOfPosition (\<lambda>r. True) (parsed n)
       (if direction = MoveDirectionLeft then Lft t - 1
        else if direction = MoveDirectionRight then Rgt t else Lft t)
       (if direction = MoveDirectionLeft \<or> direction = MoveDirectionRight
        then Depth t - Depth n else Depth t + 1 - Depth n)
       (if direction = MoveDirectionLeft \<or> direction = MoveDirectionRight
        then ParentID t else Some (ID t)) d"
  by (simp add: MoveTo_def Let_def)




lemma openedRow_sel [simp]:
  "ID (openedRow sc P pid r) = ID r" "Scope (openedRow sc P pid r) = Scope r"
  by (simp_all add: openedRow_def)



lemma nestedIntervals_Nil [simp]: "nestedIntervals []"
  by (simp add: nestedIntervals_def)













section \<open>A second move\<close>

lemmas move_defs = MoveTo_def moveToRightOfPosition_def Transaction_def
      Pluck_id_def moveAffected_def moveTarget_def syncChildrenCount_def syncParent_def
      Count_def sent_def MoveDirectionLeft_def MoveDirectionRight_def MoveDirectionInner_def Let_def

lemma keyed_syncParent [simp]:
  "formatSQL columnNames t \<Longrightarrow> map keyed (rows (snd (syncParent tx t pid d))) = map keyed (rows d)"
  by (cases pid; simp add: syncParent_bound keyed_def comp_def)

lemma keyed_syncChildrenCount [simp]:
  "formatSQL columnNames t \<Longrightarrow>
   map keyed (rows (snd (syncChildrenCount tx t op np d))) = map keyed (rows d)"
  by (simp add: syncChildrenCount_bound)

lemma keyed_relocation_row:
  fixes r :: "'s row"
  assumes wf: "Lft r < Rgt r"
    and mem: "ID r \<in> set ids \<longleftrightarrow> tL \<le> Lft r \<and> Rgt r \<le> tR"
    and lohi: "lo = tR + 1 \<or> hi = tL - 1"
  shows "keyed (targetRow (\<lambda>r. True) tid ids mstep dc np (affectedRow (\<lambda>r. True) lo hi astep r))
         = (ID r,
            (if tL \<le> Lft r \<and> Rgt r \<le> tR then Lft r + mstep
             else if lo \<le> Lft r \<and> Lft r \<le> hi then Lft r + astep else Lft r),
            (if tL \<le> Lft r \<and> Rgt r \<le> tR then Rgt r + mstep
             else if lo \<le> Rgt r \<and> Rgt r \<le> hi then Rgt r + astep else Rgt r),
            (if tL \<le> Lft r \<and> Rgt r \<le> tR then Depth r + dc else Depth r),
            (if ID r = tid then np else ParentID r))"
proof -
  have co: "(\<lambda>r. (Lft r, Rgt r, Depth r))
           (targetRow (\<lambda>r. (\<lambda>s. True) (Scope r)) tid ids mstep dc np
              (affectedRow (\<lambda>r. (\<lambda>s. True) (Scope r)) lo hi astep r))
         = (if (\<lambda>s. True) (Scope r) \<and> tL \<le> Lft r \<and> Rgt r \<le> tR
            then (Lft r + mstep, Rgt r + mstep, Depth r + dc)
            else if (\<lambda>s. True) (Scope r)
            then (if lo \<le> Lft r \<and> Lft r \<le> hi then Lft r + astep else Lft r,
                  if lo \<le> Rgt r \<and> Rgt r \<le> hi then Rgt r + astep else Rgt r,
                  Depth r)
            else (Lft r, Rgt r, Depth r))"
    by (rule relocation_row) (use wf mem lohi in auto)
  have idp: "ID (targetRow (\<lambda>r. True) tid ids mstep dc np (affectedRow (\<lambda>r. True) lo hi astep r)) = ID r"
    "ParentID (targetRow (\<lambda>r. True) tid ids mstep dc np (affectedRow (\<lambda>r. True) lo hi astep r))
       = (if ID r = tid then np else ParentID r)"
    by (simp_all add: targetRow_def affectedRow_def Let_def)
  show ?thesis
  proof (cases "tL \<le> Lft r \<and> Rgt r \<le> tR")
    case True
    with co idp show ?thesis by (simp add: keyed_def)
  next
    case False
    then have nosub: "(if tL \<le> Lft r \<and> Rgt r \<le> tR then a else b) = b" for a b :: int
      by auto
    from False have nosub3: "(if True \<and> tL \<le> Lft r \<and> Rgt r \<le> tR then a else b) = b"
      for a b :: "int \<times> int \<times> int" by auto
    from co idp show ?thesis unfolding nosub nosub3 by (simp add: keyed_def)
  qed
qed

lemma row_by_id:
  assumes ids: "distinct (map ID rs)" and r: "r \<in> set rs"
    and r': "r' \<in> set (map G rs)" and same: "ID r' = ID r"
    and keep: "\<And>x. x \<in> set rs \<Longrightarrow> ID (G x) = ID x"
  shows "r' = G r"
proof -
  from r' obtain r0 where r0: "r0 \<in> set rs" "r' = G r0" by auto
  with keep same have "ID r0 = ID r" by simp
  with ids r r0(1) have "r0 = r" by (auto simp: distinct_map dest: inj_onD)
  with r0 show ?thesis by simp
qed

lemma syncParent_stable:
  assumes b: "formatSQL columnNames t" and "synced (rows e) pid"
  shows "rows (snd (syncParent (\<lambda>r. True) t pid e)) = rows e"
proof (cases pid)
  case None then show ?thesis by (simp add: syncParent_def)
next
  case (Some i)
  with assms have "\<And>r. r \<in> set (rows e) \<Longrightarrow> ID r = i \<Longrightarrow>
      r\<lparr>ChildrenCount := int (length (filter (\<lambda>x. ParentID x = Some i) (rows e)))\<rparr> = r"
    by (simp add: synced_def)
  then have "map (\<lambda>r. if ID r = i
      then r\<lparr>ChildrenCount := int (length (filter (\<lambda>x. ParentID x = Some i) (rows e)))\<rparr>
      else r) (rows e) = rows e"
    by (intro map_idI) simp
  moreover have "rows (snd (syncParent (\<lambda>r. True) t (Some i) e))
      = map (\<lambda>r. if ID r = i
          then r\<lparr>ChildrenCount := int (length (filter (\<lambda>x. ParentID x = Some i) (rows e)))\<rparr>
          else r) (rows e)"
    using b by (simp add: syncParent_bound)
  ultimately show ?thesis using Some by (simp only:)
qed

lemma syncParent_synced:
  assumes b: "formatSQL columnNames t"
  shows "synced (rows (snd (syncParent (\<lambda>r. True) t pid e))) pid"
proof (cases pid)
  case None then show ?thesis by (simp add: synced_def)
next
  case (Some i)
  define c where "c = int (length (filter (\<lambda>x. ParentID x = Some i) (rows e)))"
  define upd where "upd = (\<lambda>r::'a row. if ID r = i then r\<lparr>ChildrenCount := c\<rparr> else r)"
  have rows': "rows (snd (syncParent (\<lambda>r. True) t (Some i) e)) = map upd (rows e)"
    using b by (simp add: syncParent_bound upd_def c_def)
  have par: "ParentID (upd r) = ParentID r" for r by (simp add: upd_def)
  have "length (filter (\<lambda>x. ParentID x = Some i) (map upd (rows e)))
      = length (filter (\<lambda>x. ParentID x = Some i) (rows e))"
    by (simp add: filter_map comp_def par)
  then have cnt: "int (length (filter (\<lambda>x. ParentID x = Some i) (map upd (rows e)))) = c"
    by (simp add: c_def)
  have "ChildrenCount r' = c" if "r' \<in> set (map upd (rows e))" "ID r' = i" for r'
  proof -
    from that(1) obtain r0 where "r' = upd r0" by auto
    with that(2) show ?thesis by (simp add: upd_def split: if_splits)
  qed
  then have "\<forall>r \<in> set (map upd (rows e)). ID r = i \<longrightarrow>
      ChildrenCount r = int (length (filter (\<lambda>x. ParentID x = Some i) (map upd (rows e))))"
    unfolding cnt by blast
  then show ?thesis unfolding Some synced_def rows' by simp
qed

lemma fst_relocation [simp]:
  "formatSQL columnNames t \<Longrightarrow> fst (moveToRightOfPosition tx t p dc np d) = None"
  by (simp add: relocation_unfold)

lemma relocation_in_place:
  assumes ids: "distinct (map ID (rows e))" and m: "m \<in> set (rows e)" and wm: "Lft m \<le> Rgt m"
    and sy: "synced (rows e) (ParentID m)"
  shows "rows (snd (moveToRightOfPosition (\<lambda>r. True) (parsed m) (Rgt m) 0 (ParentID m) e))
         = rows e"
proof -
  have ms: "Rgt m - Lft m + 1 \<noteq> 0" "\<not> Rgt m - Lft m + 1 < 0" using wm by simp_all
  have aff: "affectedRow (\<lambda>r. True) (Rgt m + 1) (Rgt m) st r = r" for st and r :: "'s row"
    by (simp add: affectedRow_def)
  have tgt: "targetRow (\<lambda>r. True) (ID m) ids 0 0 (ParentID m) r = r"
    if "r \<in> set (rows e)" for ids r
  proof -
    have "ID r = ID m \<Longrightarrow> r = m"
      using ids that m by (auto simp: distinct_map dest: inj_onD)
    then show ?thesis by (auto simp: targetRow_def Let_def)
  qed
  have "rows (snd (moveTarget (\<lambda>r. True) (parsed m) (ID m) ids 0 0 (ParentID m)
          (snd (moveAffected (\<lambda>r. True) (parsed m) (Rgt m + 1) (Rgt m) st e'))))
        = rows e" if "rows e' = rows e" for ids st e'
    using that by (simp add: rows_moveTarget rows_moveAffected aff tgt map_idI)
  then have "rows (snd (syncChildrenCount (\<lambda>r. True) (parsed m) (ParentID m) (ParentID m)
        (snd (moveTarget (\<lambda>r. True) (parsed m) (ID m) ids 0 0 (ParentID m)
          (snd (moveAffected (\<lambda>r. True) (parsed m) (Rgt m + 1) (Rgt m) st e'))))))
        = rows e" if "rows e' = rows e" for ids st e'
    using sy that by (simp add: syncChildrenCount_bound syncParent_stable)
  then show ?thesis using ms by (simp add: relocation_unfold)
qed

lemma row_unique:
  assumes "distinct (map ID rs)" "a \<in> set rs" "b \<in> set rs" "ID a = ID b"
  shows "a = b"
  using assms by (auto simp: distinct_map dest: inj_onD)

lemma ID_relocation_row [simp]:
  "ID (targetRow tx tid ids mstep dc np (affectedRow tx lo hi astep r)) = ID r"
  by (simp add: targetRow_def affectedRow_def Let_def)

lemma moved_row:
  assumes ids: "distinct (map ID (rows d))" and r: "r \<in> set (rows d)" and wf: "Lft r < Rgt r"
    and ms: "p - Lft n + 1 \<noteq> 0"
    and r': "r' \<in> set (rows (snd (moveToRightOfPosition (\<lambda>r. True) (parsed n) p dc np d)))"
    and same: "ID r' = ID r"
    and lo: "lo = (if p - Lft n + 1 < 0 then p + 1 else Rgt n + 1)"
    and hi: "hi = (if p - Lft n + 1 < 0 then Lft n - 1 else p)"
    and astep: "astep = (if p - Lft n + 1 < 0 then Rgt n - Lft n + 1 else (Rgt n - Lft n + 1) * - 1)"
    and mstep: "mstep = (if p - Lft n + 1 < 0 then p - Lft n + 1
                         else p - Lft n + 1 - (Rgt n - Lft n + 1))"
  shows "keyed r'
         = (ID r,
            (if Lft n \<le> Lft r \<and> Rgt r \<le> Rgt n then Lft r + mstep
             else if lo \<le> Lft r \<and> Lft r \<le> hi then Lft r + astep else Lft r),
            (if Lft n \<le> Lft r \<and> Rgt r \<le> Rgt n then Rgt r + mstep
             else if lo \<le> Rgt r \<and> Rgt r \<le> hi then Rgt r + astep else Rgt r),
            (if Lft n \<le> Lft r \<and> Rgt r \<le> Rgt n then Depth r + dc else Depth r),
            (if ID r = ID n then np else ParentID r))"
proof -
  define ids' where "ids' = map ID (filter (\<lambda>r. True \<and> Lft n \<le> Lft r \<and> Rgt r \<le> Rgt n) (rows d))"
  let ?G = "\<lambda>x. targetRow (\<lambda>r. True) (ID n) ids' mstep dc np (affectedRow (\<lambda>r. True) lo hi astep x)"
  have "snd (moveToRightOfPosition (\<lambda>r. True) (parsed n) p dc np d)
      = sent COMMIT (snd (syncChildrenCount (\<lambda>r. True) (parsed n) (ParentID n) np
          (snd (moveTarget (\<lambda>r. True) (parsed n) (ID n) ids' mstep dc np
            (snd (moveAffected (\<lambda>r. True) (parsed n) lo hi astep (sent SELECT (sent BEGIN d))))))))"
    using ms
    by (simp only: relocation_unfold [OF formatSQL_parsed] lo hi astep mstep ids'_def parsed_sel
        if_False snd_conv)
  then have "map keyed (rows (snd (moveToRightOfPosition (\<lambda>r. True) (parsed n) p dc np d)))
      = map keyed (map ?G (rows d))"
    by (simp add: rows_moveTarget rows_moveAffected)
  moreover from r' have "keyed r' \<in> set (map keyed
      (rows (snd (moveToRightOfPosition (\<lambda>r. True) (parsed n) p dc np d))))"
    by (simp only: set_map imageI)
  ultimately have "keyed r' \<in> set (map keyed (map ?G (rows d)))"
    by (simp only:)
  then obtain r0 where r0: "r0 \<in> set (rows d)" "keyed r' = keyed (?G r0)" by auto
  then have "ID r' = ID r0" by (simp add: keyed_def)
  with same have "ID r0 = ID r" by simp
  with ids r0(1) r have "r0 = r" by (rule row_unique)
  with r0(2) have "keyed r' = keyed (?G r)" by (simp only:)
  also have "keyed (?G r) = (ID r,
            (if Lft n \<le> Lft r \<and> Rgt r \<le> Rgt n then Lft r + mstep
             else if lo \<le> Lft r \<and> Lft r \<le> hi then Lft r + astep else Lft r),
            (if Lft n \<le> Lft r \<and> Rgt r \<le> Rgt n then Rgt r + mstep
             else if lo \<le> Rgt r \<and> Rgt r \<le> hi then Rgt r + astep else Rgt r),
            (if Lft n \<le> Lft r \<and> Rgt r \<le> Rgt n then Depth r + dc else Depth r),
            (if ID r = ID n then np else ParentID r))"
  proof (rule keyed_relocation_row [OF wf])
    show "ID r \<in> set ids' \<longleftrightarrow> Lft n \<le> Lft r \<and> Rgt r \<le> Rgt n"
      using id_in_plucked [of "\<lambda>r. True" "rows d" r "\<lambda>r. Lft n \<le> Lft r \<and> Rgt r \<le> Rgt n"] ids r
      by (simp add: ids'_def)
    show "lo = Rgt n + 1 \<or> hi = Lft n - 1" unfolding lo hi by (cases "p - Lft n + 1 < 0") simp_all
  qed
  finally show ?thesis .
qed

section \<open>Properties\<close>




text \<open>
  C2. The relocation, on a table whose rows of the session have left < right and distinct ids,
  for a node whose column names are all bound.
  With width = right - left + 1 of the node and moveStep = position - left + 1:
  moveStep = 0 returns success and changes nothing (the only statement sent in the transaction
  is the read of the subtree ids); moveStep < 0 adds width to every bound in
  [position + 1, left - 1] and moveStep to both bounds of every row of the subtree; moveStep > 0
  subtracts width from every bound in [right + 1, position] and adds moveStep - width to both
  bounds of every row of the subtree; in both moving cases the depth change is added to the depth
  of every row of the subtree, and no other coordinate changes.
\<close>

theorem relocation_shifts:
  assumes wf: "\<forall>r \<in> set (rows d). sc (Scope r) \<longrightarrow> Lft r < Rgt r"
    and ids: "distinct (map ID (filter (\<lambda>r. sc (Scope r)) (rows d)))"
    and bound: "formatSQL columnNames t"
  shows "fst (moveToRightOfPosition (\<lambda>r. sc (Scope r)) t p dc np d) = None
    \<and> (p - Lft t + 1 = 0 \<longrightarrow>
         snd (moveToRightOfPosition (\<lambda>r. sc (Scope r)) t p dc np d)
         = d\<lparr>stmts := stmts d @ [BEGIN, SELECT, COMMIT]\<rparr>)
    \<and> (p - Lft t + 1 < 0 \<longrightarrow>
         map (\<lambda>r. (Lft r, Rgt r, Depth r)) (rows (snd (moveToRightOfPosition (\<lambda>r. sc (Scope r)) t p dc np d)))
         = map (\<lambda>r. if sc (Scope r) \<and> Lft t \<le> Lft r \<and> Rgt r \<le> Rgt t
                     then (Lft r + (p - Lft t + 1), Rgt r + (p - Lft t + 1), Depth r + dc)
                     else if sc (Scope r)
                     then (if p + 1 \<le> Lft r \<and> Lft r \<le> Lft t - 1 then Lft r + (Rgt t - Lft t + 1) else Lft r,
                           if p + 1 \<le> Rgt r \<and> Rgt r \<le> Lft t - 1 then Rgt r + (Rgt t - Lft t + 1) else Rgt r,
                           Depth r)
                     else (Lft r, Rgt r, Depth r)) (rows d))
    \<and> (p - Lft t + 1 > 0 \<longrightarrow>
         map (\<lambda>r. (Lft r, Rgt r, Depth r)) (rows (snd (moveToRightOfPosition (\<lambda>r. sc (Scope r)) t p dc np d)))
         = map (\<lambda>r. if sc (Scope r) \<and> Lft t \<le> Lft r \<and> Rgt r \<le> Rgt t
                     then (Lft r + (p - Lft t + 1 - (Rgt t - Lft t + 1)),
                           Rgt r + (p - Lft t + 1 - (Rgt t - Lft t + 1)), Depth r + dc)
                     else if sc (Scope r)
                     then (if Rgt t + 1 \<le> Lft r \<and> Lft r \<le> p then Lft r + (Rgt t - Lft t + 1) * - 1 else Lft r,
                           if Rgt t + 1 \<le> Rgt r \<and> Rgt r \<le> p then Rgt r + (Rgt t - Lft t + 1) * - 1 else Rgt r,
                           Depth r)
                     else (Lft r, Rgt r, Depth r)) (rows d))"
proof -
  let ?tx = "\<lambda>r. sc (Scope r)"
  let ?sub = "\<lambda>r. ?tx r \<and> Lft t \<le> Lft r \<and> Rgt r \<le> Rgt t"
  let ?co = "\<lambda>r. (Lft r, Rgt r, Depth r)"
  define ids where "ids = map ID (filter ?sub (rows d))"
  have mem: "?tx r \<longrightarrow> (ID r \<in> set ids \<longleftrightarrow> Lft t \<le> Lft r \<and> Rgt r \<le> Rgt t)"
    if "r \<in> set (rows d)" for r
    using id_in_plucked [OF ids that, of "\<lambda>r. Lft t \<le> Lft r \<and> Rgt r \<le> Rgt t"]
    by (simp add: ids_def)
  have c1: "fst (moveToRightOfPosition ?tx t p dc np d) = None"
    using bound by (simp add: relocation_unfold)
  have c2: "snd (moveToRightOfPosition ?tx t p dc np d) = d\<lparr>stmts := stmts d @ [BEGIN, SELECT, COMMIT]\<rparr>"
    if "p - Lft t + 1 = 0"
    using that bound by (simp add: relocation_unfold sent_def)
  have c3: "map ?co (rows (snd (moveToRightOfPosition ?tx t p dc np d)))
         = map (\<lambda>r. if ?sub r
                     then (Lft r + (p - Lft t + 1), Rgt r + (p - Lft t + 1), Depth r + dc)
                     else if sc (Scope r)
                     then (if p + 1 \<le> Lft r \<and> Lft r \<le> Lft t - 1 then Lft r + (Rgt t - Lft t + 1) else Lft r,
                           if p + 1 \<le> Rgt r \<and> Rgt r \<le> Lft t - 1 then Rgt r + (Rgt t - Lft t + 1) else Rgt r,
                           Depth r)
                     else (Lft r, Rgt r, Depth r)) (rows d)"
    if neg: "p - Lft t + 1 < 0"
  proof -
    have "snd (moveToRightOfPosition ?tx t p dc np d) =
        sent COMMIT (snd (syncChildrenCount ?tx t (ParentID t) np
          (snd (moveTarget ?tx t (ID t) ids (p - Lft t + 1) dc np
            (snd (moveAffected ?tx t (p + 1) (Lft t - 1) (Rgt t - Lft t + 1)
               (sent SELECT (sent BEGIN d))))))))"
      using neg bound by (simp add: relocation_unfold ids_def)
    moreover have "?co (targetRow ?tx (ID t) ids (p - Lft t + 1) dc np
              (affectedRow ?tx (p + 1) (Lft t - 1) (Rgt t - Lft t + 1) r)) = 
             (if ?sub r
                     then (Lft r + (p - Lft t + 1), Rgt r + (p - Lft t + 1), Depth r + dc)
                     else if sc (Scope r)
                     then (if p + 1 \<le> Lft r \<and> Lft r \<le> Lft t - 1 then Lft r + (Rgt t - Lft t + 1) else Lft r,
                           if p + 1 \<le> Rgt r \<and> Rgt r \<le> Lft t - 1 then Rgt r + (Rgt t - Lft t + 1) else Rgt r,
                           Depth r)
                     else (Lft r, Rgt r, Depth r))" if "r \<in> set (rows d)" for r
      using wf that neg by (intro relocation_row [where tR = "Rgt t"] mem) auto
    ultimately show ?thesis
      using bound by (simp add: coords_sync rows_moveTarget rows_moveAffected)
  qed
  have c4: "map ?co (rows (snd (moveToRightOfPosition ?tx t p dc np d)))
         = map (\<lambda>r. if ?sub r
                     then (Lft r + (p - Lft t + 1 - (Rgt t - Lft t + 1)),
                           Rgt r + (p - Lft t + 1 - (Rgt t - Lft t + 1)), Depth r + dc)
                     else if sc (Scope r)
                     then (if Rgt t + 1 \<le> Lft r \<and> Lft r \<le> p then Lft r + (Rgt t - Lft t + 1) * - 1 else Lft r,
                           if Rgt t + 1 \<le> Rgt r \<and> Rgt r \<le> p then Rgt r + (Rgt t - Lft t + 1) * - 1 else Rgt r,
                           Depth r)
                     else (Lft r, Rgt r, Depth r)) (rows d)"
    if pos: "p - Lft t + 1 > 0"
  proof -
    have "snd (moveToRightOfPosition ?tx t p dc np d) =
        sent COMMIT (snd (syncChildrenCount ?tx t (ParentID t) np
          (snd (moveTarget ?tx t (ID t) ids (p - Lft t + 1 - (Rgt t - Lft t + 1)) dc np
            (snd (moveAffected ?tx t (Rgt t + 1) p ((Rgt t - Lft t + 1) * - 1)
               (sent SELECT (sent BEGIN d))))))))"
      using pos bound by (simp add: relocation_unfold ids_def)
    moreover have "?co (targetRow ?tx (ID t) ids (p - Lft t + 1 - (Rgt t - Lft t + 1)) dc np
              (affectedRow ?tx (Rgt t + 1) p ((Rgt t - Lft t + 1) * - 1) r)) = 
             (if ?sub r
                     then (Lft r + (p - Lft t + 1 - (Rgt t - Lft t + 1)),
                           Rgt r + (p - Lft t + 1 - (Rgt t - Lft t + 1)), Depth r + dc)
                     else if sc (Scope r)
                     then (if Rgt t + 1 \<le> Lft r \<and> Lft r \<le> p then Lft r + (Rgt t - Lft t + 1) * - 1 else Lft r,
                           if Rgt t + 1 \<le> Rgt r \<and> Rgt r \<le> p then Rgt r + (Rgt t - Lft t + 1) * - 1 else Rgt r,
                           Depth r)
                     else (Lft r, Rgt r, Depth r))" if "r \<in> set (rows d)" for r
      using wf that pos by (intro relocation_row [where tL = "Lft t"] mem) auto
    ultimately show ?thesis
      using bound by (simp add: coords_sync rows_moveTarget rows_moveAffected)
  qed
  from c1 c2 c3 c4 show ?thesis by blast
qed

theorem relocation_shifts_witness:
  "snd (moveToRightOfPosition (\<lambda>r. (\<lambda>s. s = 0) (Scope r)) (parsed rowC) 3 0 (Some 1) scenarioA)
     = scenarioA\<lparr>stmts := [BEGIN, SELECT, COMMIT]\<rparr>
   \<and> map (\<lambda>r. (Lft r, Rgt r, Depth r))
        (rows (snd (moveToRightOfPosition (\<lambda>r. (\<lambda>s. s = 0) (Scope r)) (parsed rowC) 1 0 (Some 1) scenarioA)))
     = [(1, 6, 0), (4, 5, 1), (2, 3, 1)]
   \<and> map (\<lambda>r. (Lft r, Rgt r, Depth r))
        (rows (snd (moveToRightOfPosition (\<lambda>r. (\<lambda>s. s = 0) (Scope r)) (parsed rowB) 5 0 (Some 1) scenarioA)))
     = [(1, 6, 0), (4, 5, 1), (2, 3, 1)]"
proof -
  have wf: "\<forall>r \<in> set (rows scenarioA). (\<lambda>s. s = 0) (Scope r) \<longrightarrow> Lft r < Rgt r"
    by (simp add: ex_defs)
  have ids: "distinct (map ID (filter (\<lambda>r. (\<lambda>s. s = 0) (Scope r)) (rows scenarioA)))"
    by (simp add: ex_defs)
  show ?thesis
    using relocation_shifts [OF wf ids formatSQL_parsed, of rowC 3 0 "Some 1"]
      relocation_shifts [OF wf ids formatSQL_parsed, of rowC 1 0 "Some 1"]
      relocation_shifts [OF wf ids formatSQL_parsed, of rowB 5 0 "Some 1"]
    by (simp add: ex_defs)
qed

text \<open>
  C3. The relocation \<open>MoveTo\<close> asks for, by direction. Left (the specification's Before): new
  parent = parent of the reference, depth change = reference depth - node depth, position =
  reference left - 1. Right (After): the same parent and depth change, position = reference
  right. Inner: new parent = the reference's id, depth change = reference depth + 1 - node
  depth, position = reference left.
\<close>

theorem MoveTo_triple:
  "MoveTo d (Model n) (Model t) MoveDirectionLeft =
     moveToRightOfPosition (\<lambda>r. True) (parsed n)
       (Lft t - 1) (Depth t - Depth n) (ParentID t) d
   \<and> MoveTo d (Model n) (Model t) MoveDirectionRight =
     moveToRightOfPosition (\<lambda>r. True) (parsed n)
       (Rgt t) (Depth t - Depth n) (ParentID t) d
   \<and> MoveTo d (Model n) (Model t) MoveDirectionInner =
     moveToRightOfPosition (\<lambda>r. True) (parsed n)
       (Lft t) (Depth t + 1 - Depth n) (Some (ID t)) d"
  by (simp add: MoveTo_def MoveDirectionLeft_def MoveDirectionRight_def MoveDirectionInner_def)

text \<open>
  C4. \<open>Create\<close> without a parent appends the record with left = 1 when its scope has no row and
  otherwise one more than the largest right of the scope, right = left + 1 and depth = 0.
  \<open>Create\<close> with a parent first adds 2 to every right bound of the scope that is at least the
  parent record's right, adds 2 to every left bound of the scope that is greater, adds 1 to the
  children count of the row with the parent's id, and then appends the record with left = the
  parent record's right, right = that + 1 and depth = the parent record's depth + 1. Both run
  in one transaction.
\<close>

theorem Create_coordinates:
  "Create d (Model s) None =
     (None, \<lparr>rows = rows d @
               [s\<lparr>Lft := (if filter (\<lambda>r. Scope r = Scope s) (rows d) = [] then 1
                           else Max (Rgt ` {r \<in> set (rows d). Scope r = Scope s}) + 1),
                  Rgt := (if filter (\<lambda>r. Scope r = Scope s) (rows d) = [] then 1
                           else Max (Rgt ` {r \<in> set (rows d). Scope r = Scope s}) + 1) + 1,
                  Depth := 0\<rparr>],
             stmts = stmts d @ [BEGIN, SELECT, INSERT, COMMIT]\<rparr>)
   \<and> Create d (Model s) (Some (Model p)) =
     (None, \<lparr>rows = map (\<lambda>r. r\<lparr>Rgt := (if Scope r = Scope s \<and> Rgt r \<ge> Rgt p
                                          then Rgt r + 2 else Rgt r),
                                  Lft := (if Scope r = Scope s \<and> Lft r > Rgt p
                                          then Lft r + 2 else Lft r),
                                  ChildrenCount := (if ID r = ID p then ChildrenCount r + 1
                                                    else ChildrenCount r)\<rparr>) (rows d) @
               [s\<lparr>Lft := Rgt p, Rgt := Rgt p + 1, Depth := Depth p + 1\<rparr>],
             stmts = stmts d @ [BEGIN, UPDATE, UPDATE, UPDATE, INSERT, COMMIT]\<rparr>)"
proof -
  have root: "Create d (Model s) None =
     (None, \<lparr>rows = rows d @
               [s\<lparr>Lft := (if filter (\<lambda>r. Scope r = Scope s) (rows d) = [] then 1
                           else Max (Rgt ` {r \<in> set (rows d). Scope r = Scope s}) + 1),
                  Rgt := (if filter (\<lambda>r. Scope r = Scope s) (rows d) = [] then 1
                           else Max (Rgt ` {r \<in> set (rows d). Scope r = Scope s}) + 1) + 1,
                  Depth := 0\<rparr>],
             stmts = stmts d @ [BEGIN, SELECT, INSERT, COMMIT]\<rparr>)"
    by (simp add: Create_def Transaction_def First_rgt_desc_def maxRgt_Max sent_def)
  have child: "Create d (Model s) (Some (Model p)) =
     (None, \<lparr>rows = map (\<lambda>r. r\<lparr>Rgt := (if Scope r = Scope s \<and> Rgt r \<ge> Rgt p
                                          then Rgt r + 2 else Rgt r),
                                  Lft := (if Scope r = Scope s \<and> Lft r > Rgt p
                                          then Lft r + 2 else Lft r),
                                  ChildrenCount := (if ID r = ID p then ChildrenCount r + 1
                                                    else ChildrenCount r)\<rparr>) (rows d) @
               [s\<lparr>Lft := Rgt p, Rgt := Rgt p + 1, Depth := Depth p + 1\<rparr>],
             stmts = stmts d @ [BEGIN, UPDATE, UPDATE, UPDATE, INSERT, COMMIT]\<rparr>)"
    by (simp add: Create_def Transaction_def Let_def comp_def sent_def cong: if_cong)
  from root child show ?thesis by (rule conjI)
qed

text \<open>
  C5. For every row with left < right, the single \<open>UPDATE\<close> of \<open>moveAffected\<close> (one
  combined condition, one clamped \<open>CASE\<close> per column) gives what the specification's pair of
  independent conditional updates gives; a row with only its left bound in the window has
  exactly its left bound shifted, and likewise for the right bound. This is the statement built
  from the two column names; when one of them is not bound the statement is refused and no row
  changes.
\<close>

theorem moveAffected_RangeShifter:
  "(formatSQL [''lft'', ''rgt''] t \<longrightarrow>
      fst (moveAffected tx t lo hi step d) = None
    \<and> length (rows (snd (moveAffected tx t lo hi step d))) = length (rows d)
    \<and> (\<forall>i < length (rows d).
         (Lft (rows d ! i) < Rgt (rows d ! i) \<longrightarrow>
            rows (snd (moveAffected tx t lo hi step d)) ! i = RangeShifter tx lo hi step (rows d) ! i)
       \<and> (tx (rows d ! i) \<and> lo \<le> Lft (rows d ! i) \<and> Lft (rows d ! i) \<le> hi
            \<and> hi < Rgt (rows d ! i) \<longrightarrow>
            rows (snd (moveAffected tx t lo hi step d)) ! i
              = (rows d ! i)\<lparr>Lft := Lft (rows d ! i) + step\<rparr>)
       \<and> (tx (rows d ! i) \<and> Lft (rows d ! i) < lo \<and> lo \<le> Rgt (rows d ! i)
            \<and> Rgt (rows d ! i) \<le> hi \<longrightarrow>
            rows (snd (moveAffected tx t lo hi step d)) ! i
              = (rows d ! i)\<lparr>Rgt := Rgt (rows d ! i) + step\<rparr>)))
   \<and> (\<not> formatSQL [''lft'', ''rgt''] t \<longrightarrow>
        moveAffected tx t lo hi step d = (Some StoreError, d\<lparr>stmts := stmts d @ [UPDATE]\<rparr>))"
  by (auto simp: moveAffected_def RangeShifter_def sent_def)

theorem moveAffected_RangeShifter_witness:
  "formatSQL [''lft'', ''rgt''] (parsed rowA)
   \<and> Lft (rows straddle ! 1) < Rgt (rows straddle ! 1)
   \<and> Lft (rows straddle ! 1) < 4 \<and> 4 \<le> Rgt (rows straddle ! 1) \<and> Rgt (rows straddle ! 1) \<le> 6
   \<and> rows (snd (moveAffected (\<lambda>r. True) (parsed rowA) 4 6 2 straddle)) ! 1
       = RangeShifter (\<lambda>r. True) 4 6 2 (rows straddle) ! 1
   \<and> rows (snd (moveAffected (\<lambda>r. True) (parsed rowA) 4 6 2 straddle)) ! 1
       = mkRow 2 (Some 1) 1 2 7 1 0
   \<and> 4 \<le> Lft (rows straddle ! 3) \<and> Lft (rows straddle ! 3) \<le> 6 \<and> 6 < Rgt (rows straddle ! 3)
   \<and> rows (snd (moveAffected (\<lambda>r. True) (parsed rowA) 4 6 2 straddle)) ! 3
       = mkRow 4 (Some 1) 1 8 7 0 0"
proof -
  have b: "formatSQL [''lft'', ''rgt''] (parsed rowA)" by simp
  have h: "(1::nat) < length (rows straddle)" "(3::nat) < length (rows straddle)"
    "Lft (rows straddle ! 1) < Rgt (rows straddle ! 1)"
    "Lft (rows straddle ! 1) < 4 \<and> 4 \<le> Rgt (rows straddle ! 1) \<and> Rgt (rows straddle ! 1) \<le> 6"
    "4 \<le> Lft (rows straddle ! 3) \<and> Lft (rows straddle ! 3) \<le> 6 \<and> 6 < Rgt (rows straddle ! 3)"
    by (simp_all add: straddle_def mkRow_def)
  from moveAffected_RangeShifter [of "parsed rowA" "\<lambda>r. True" 4 6 2 straddle] b h
  have "rows (snd (moveAffected (\<lambda>r. True) (parsed rowA) 4 6 2 straddle)) ! 1
          = RangeShifter (\<lambda>r. True) 4 6 2 (rows straddle) ! 1"
    "rows (snd (moveAffected (\<lambda>r. True) (parsed rowA) 4 6 2 straddle)) ! 1
       = (rows straddle ! 1)\<lparr>Rgt := Rgt (rows straddle ! 1) + 2\<rparr>"
    "rows (snd (moveAffected (\<lambda>r. True) (parsed rowA) 4 6 2 straddle)) ! 3
       = (rows straddle ! 3)\<lparr>Lft := Lft (rows straddle ! 3) + 2\<rparr>"
    by blast+
  with b h show ?thesis by (simp add: straddle_def mkRow_def)
qed

text \<open>
  C6 fails on the code. \<open>MoveTo\<close> does not stay within the scope of the moved node. In
  \<open>twoScopes\<close> every scope satisfies the invariants; the node and the reference are the two
  roots of scope 1, and the move shifts the rows of scope 2 as well: its root goes from (1, 4) to
  (3, 4) and its child from (2, 3) to (4, 3).
\<close>

theorem MoveTo_shifts_other_scope:
  "MoveTo twoScopes (Model (mkRow 2 None 0 3 4 0 1)) (Model (mkRow 1 None 0 1 2 0 1))
     MoveDirectionLeft
   = (None, \<lparr>rows = [mkRow 1 None 0 3 4 0 1, mkRow 2 None 0 1 2 0 1,
                      mkRow 3 None 0 3 4 1 2, mkRow 4 (Some 3) 1 4 3 0 2],
              stmts = [BEGIN, SELECT, UPDATE, UPDATE, UPDATE, COMMIT]\<rparr>)"
  by (simp add: move_defs twoScopes_def mkRow_def)

lemma twoScopes_well_formed: "distinct (map ID (rows twoScopes)) \<and> invariants twoScopes"
  by (simp add: twoScopes_def mkRow_def invariants_def nestedSet_def disjointOrNested_def
      descendantCount_def)

text \<open>
  C7 as stated does not hold. \<open>MoveTo\<close> does not write the new coordinates back into the
  caller's records, so a second call with the same records repeats the first computation on the
  moved table: in Scenario B it moves B where C was moved, and the rows change again. With the
  records read again from the table, a second move to the left of the reference still has a
  non-zero step (more than the one read is sent).
\<close>

theorem second_move_same_records_changes_rows:
  "fst (MoveTo scenarioA (Model rowC) (Model rowB) MoveDirectionLeft) = None
   \<and> rows (snd (MoveTo (snd (MoveTo scenarioA (Model rowC) (Model rowB) MoveDirectionLeft))
                  (Model rowC) (Model rowB) MoveDirectionLeft))
       \<noteq> rows (snd (MoveTo scenarioA (Model rowC) (Model rowB) MoveDirectionLeft))
   \<and> rows (snd (MoveTo scenarioA (Model rowC) (Model rowB) MoveDirectionLeft))
       = [rowA, mkRow 2 (Some 1) 1 4 5 0 0, mkRow 3 (Some 1) 1 2 3 0 0]
   \<and> stmts (snd (MoveTo (snd (MoveTo scenarioA (Model rowC) (Model rowB) MoveDirectionLeft))
                  (Model (mkRow 3 (Some 1) 1 2 3 0 0)) (Model (mkRow 2 (Some 1) 1 4 5 0 0))
                  MoveDirectionLeft))
       \<noteq> stmts (snd (MoveTo scenarioA (Model rowC) (Model rowB) MoveDirectionLeft))
           @ [BEGIN, SELECT, COMMIT]"
  by (simp add: ex_defs move_defs)

text \<open>
  C7, amended. In a table with distinct ids, let node and reference be stored rows with
  left < right, the reference's interval disjoint from the node's or strictly containing it.
  After \<open>MoveTo\<close> with these rows, a second \<open>MoveTo\<close> in the same direction with the two rows
  as they are now stored returns success and leaves every row as it is. For Right (After) and
  Inner its step is 0: only the read of the subtree ids is sent in its transaction.
\<close>

theorem second_move_with_reread_records:
  assumes ids: "distinct (map ID (rows d))"
    and n: "n \<in> set (rows d)" and t: "t \<in> set (rows d)"
    and wn: "Lft n < Rgt n" and wt: "Lft t < Rgt t"
    and out: "Rgt t < Lft n \<or> Rgt n < Lft t \<or> (Lft t < Lft n \<and> Rgt n < Rgt t)"
    and n': "n' \<in> set (rows (snd (MoveTo d (Model n) (Model t) direction)))" "ID n' = ID n"
    and t': "t' \<in> set (rows (snd (MoveTo d (Model n) (Model t) direction)))" "ID t' = ID t"
  shows "fst (MoveTo (snd (MoveTo d (Model n) (Model t) direction)) (Model n') (Model t') direction) = None
    \<and> rows (snd (MoveTo (snd (MoveTo d (Model n) (Model t) direction)) (Model n') (Model t') direction))
        = rows (snd (MoveTo d (Model n) (Model t) direction))
    \<and> (direction \<noteq> MoveDirectionLeft \<longrightarrow>
         snd (MoveTo (snd (MoveTo d (Model n) (Model t) direction)) (Model n') (Model t') direction)
         = (snd (MoveTo d (Model n) (Model t) direction))
             \<lparr>stmts := stmts (snd (MoveTo d (Model n) (Model t) direction))
                        @ [BEGIN, SELECT, COMMIT]\<rparr>)"
proof -
  define p where "p = (if direction = MoveDirectionLeft then Lft t - 1
        else if direction = MoveDirectionRight then Rgt t else Lft t)"
  define dc where "dc = (if direction = MoveDirectionLeft \<or> direction = MoveDirectionRight
        then Depth t - Depth n else Depth t + 1 - Depth n)"
  define np where "np = (if direction = MoveDirectionLeft \<or> direction = MoveDirectionRight
        then ParentID t else Some (ID t))"
  define d' where "d' = snd (moveToRightOfPosition (\<lambda>r. True) (parsed n) p dc np d)"
  have first: "snd (MoveTo d (Model n) (Model t) direction) = d'"
    by (simp add: MoveTo_unfold d'_def p_def dc_def np_def)
  define p' where "p' = (if direction = MoveDirectionLeft then Lft t' - 1
        else if direction = MoveDirectionRight then Rgt t' else Lft t')"
  define dc' where "dc' = (if direction = MoveDirectionLeft \<or> direction = MoveDirectionRight
        then Depth t' - Depth n' else Depth t' + 1 - Depth n')"
  define np' where "np' = (if direction = MoveDirectionLeft \<or> direction = MoveDirectionRight
        then ParentID t' else Some (ID t'))"
  have second: "MoveTo d' (Model n') (Model t') direction
      = moveToRightOfPosition (\<lambda>r. True) (parsed n') p' dc' np' d'"
    by (simp add: MoveTo_unfold p'_def dc'_def np'_def)
  have ids': "distinct (map ID (rows d'))" using ids by (simp add: d'_def keys_relocation)
  have n'd: "n' \<in> set (rows d')" and t'd: "t' \<in> set (rows d')" using n' t' first by simp_all
  have tn: "ID t \<noteq> ID n"
  proof
    assume "ID t = ID n"
    with ids t n have "t = n" by (rule row_unique)
    with out wn show False by simp
  qed
  have tsub: "(if Lft n \<le> Lft t \<and> Rgt t \<le> Rgt n then a else b) = b" for a b :: int
    using out wt wn by auto
  have stay: "p' - Lft n' + 1 = 0 \<Longrightarrow> ?thesis"
    unfolding first second by (simp add: relocation_unfold sent_def)
  show ?thesis
  proof (cases "p - Lft n + 1 = 0")
    case True
    then have "rows d' = rows d" by (simp add: d'_def relocation_unfold)
    with n'd t'd n' t' ids n t have "n' = n" "t' = t" by (auto intro: row_unique)
    then have "p' = p" by (simp add: p'_def p_def)
    with True \<open>n' = n\<close> have "p' - Lft n' + 1 = 0" by simp
    then show ?thesis by (rule stay)
  next
    case False
    define lo where "lo = (if p - Lft n + 1 < 0 then p + 1 else Rgt n + 1)"
    define hi where "hi = (if p - Lft n + 1 < 0 then Lft n - 1 else p)"
    define astep where "astep = (if p - Lft n + 1 < 0 then Rgt n - Lft n + 1 else (Rgt n - Lft n + 1) * - 1)"
    define mstep where "mstep = (if p - Lft n + 1 < 0 then p - Lft n + 1
                         else p - Lft n + 1 - (Rgt n - Lft n + 1))"
    have kn: "keyed n' = (ID n, Lft n + mstep, Rgt n + mstep, Depth n + dc, np)"
      using moved_row [OF ids n wn False n'd [unfolded d'_def] n'(2) lo_def hi_def astep_def mstep_def]
      by simp
    have kt: "keyed t' = (ID t,
            (if lo \<le> Lft t \<and> Lft t \<le> hi then Lft t + astep else Lft t),
            (if lo \<le> Rgt t \<and> Rgt t \<le> hi then Rgt t + astep else Rgt t),
            Depth t, ParentID t)"
      using moved_row [OF ids t wt False t'd [unfolded d'_def] t'(2) lo_def hi_def astep_def mstep_def]
        tn unfolding tsub by simp
    from kn have Ln: "Lft n' = Lft n + mstep" and Rn: "Rgt n' = Rgt n + mstep"
      and Dn: "Depth n' = Depth n + dc" and Pn: "ParentID n' = np"
      by (simp_all add: keyed_def)
    from kt have Lt: "Lft t' = (if lo \<le> Lft t \<and> Lft t \<le> hi then Lft t + astep else Lft t)"
      and Rt: "Rgt t' = (if lo \<le> Rgt t \<and> Rgt t \<le> hi then Rgt t + astep else Rgt t)"
      and Dt: "Depth t' = Depth t" and Pt: "ParentID t' = ParentID t"
      by (simp_all add: keyed_def)
    show ?thesis
    proof (cases "direction = MoveDirectionLeft")
      case left: True
      have pR: "p' = Rgt n'"
        using left False out wn wt
        by (auto simp: p'_def p_def Lt Rn lo_def hi_def astep_def mstep_def)
      have dc0: "dc' = 0" using left by (simp add: dc'_def dc_def Dt Dn)
      have npP: "np' = ParentID n'" using left by (simp add: np'_def np_def Pt Pn)
      have "synced (rows d') np"
        using False unfolding d'_def
        by (simp add: relocation_unfold syncChildrenCount_bound syncParent_synced)
      then have sy: "synced (rows d') (ParentID n')" by (simp add: Pn)
      have "Lft n' \<le> Rgt n'" using wn by (simp add: Ln Rn)
      with ids' n'd have "rows (snd (moveToRightOfPosition (\<lambda>r. True) (parsed n')
          (Rgt n') 0 (ParentID n') d')) = rows d'"
        using sy by (rule relocation_in_place)
      then show ?thesis using left unfolding first second pR dc0 npP by simp
    next
      case notleft: False
      have "p' - Lft n' + 1 = 0"
        using notleft False out wn wt
        by (auto simp: p'_def p_def Lt Rt Ln lo_def hi_def astep_def mstep_def)
      then show ?thesis by (rule stay)
    qed
  qed
qed

theorem second_move_with_reread_records_witness:
  "distinct (map ID (rows scenarioA)) \<and> rowC \<in> set (rows scenarioA) \<and> rowB \<in> set (rows scenarioA)
   \<and> Lft rowC < Rgt rowC \<and> Lft rowB < Rgt rowB
   \<and> (Rgt rowB < Lft rowC \<or> Rgt rowC < Lft rowB \<or> (Lft rowB < Lft rowC \<and> Rgt rowC < Rgt rowB))
   \<and> mkRow 3 (Some 1) 1 2 3 0 0 \<in> set (rows (snd (MoveTo scenarioA (Model rowC) (Model rowB) MoveDirectionLeft)))
   \<and> mkRow 2 (Some 1) 1 4 5 0 0 \<in> set (rows (snd (MoveTo scenarioA (Model rowC) (Model rowB) MoveDirectionLeft)))
   \<and> rows (snd (MoveTo (snd (MoveTo scenarioA (Model rowC) (Model rowB) MoveDirectionLeft))
                  (Model (mkRow 3 (Some 1) 1 2 3 0 0)) (Model (mkRow 2 (Some 1) 1 4 5 0 0))
                  MoveDirectionLeft))
       = rows (snd (MoveTo scenarioA (Model rowC) (Model rowB) MoveDirectionLeft))
   \<and> mkRow 3 (Some 2) 2 3 4 0 0 \<in> set (rows (snd (MoveTo scenarioA (Model rowC) (Model rowB) MoveDirectionInner)))
   \<and> mkRow 2 (Some 1) 1 2 5 1 0 \<in> set (rows (snd (MoveTo scenarioA (Model rowC) (Model rowB) MoveDirectionInner)))
   \<and> snd (MoveTo (snd (MoveTo scenarioA (Model rowC) (Model rowB) MoveDirectionInner))
                  (Model (mkRow 3 (Some 2) 2 3 4 0 0)) (Model (mkRow 2 (Some 1) 1 2 5 1 0))
                  MoveDirectionInner)
       = (snd (MoveTo scenarioA (Model rowC) (Model rowB) MoveDirectionInner))
           \<lparr>stmts := stmts (snd (MoveTo scenarioA (Model rowC) (Model rowB) MoveDirectionInner))
                      @ [BEGIN, SELECT, COMMIT]\<rparr>"
proof -
  have h: "distinct (map ID (rows scenarioA))" "rowC \<in> set (rows scenarioA)"
    "rowB \<in> set (rows scenarioA)" "Lft rowC < Rgt rowC" "Lft rowB < Rgt rowB"
    "Rgt rowB < Lft rowC \<or> Rgt rowC < Lft rowB \<or> (Lft rowB < Lft rowC \<and> Rgt rowC < Rgt rowB)"
    by (simp_all add: ex_defs)
  have l: "mkRow 3 (Some 1) 1 2 3 0 0 \<in> set (rows (snd (MoveTo scenarioA (Model rowC) (Model rowB) MoveDirectionLeft)))"
    "ID (mkRow 3 (Some 1) 1 2 3 0 (0::nat)) = ID rowC"
    "mkRow 2 (Some 1) 1 4 5 0 0 \<in> set (rows (snd (MoveTo scenarioA (Model rowC) (Model rowB) MoveDirectionLeft)))"
    "ID (mkRow 2 (Some 1) 1 4 5 0 (0::nat)) = ID rowB"
    by (simp_all add: ex_defs move_defs)
  have i: "mkRow 3 (Some 2) 2 3 4 0 0 \<in> set (rows (snd (MoveTo scenarioA (Model rowC) (Model rowB) MoveDirectionInner)))"
    "ID (mkRow 3 (Some 2) 2 3 4 0 (0::nat)) = ID rowC"
    "mkRow 2 (Some 1) 1 2 5 1 0 \<in> set (rows (snd (MoveTo scenarioA (Model rowC) (Model rowB) MoveDirectionInner)))"
    "ID (mkRow 2 (Some 1) 1 2 5 1 (0::nat)) = ID rowB"
    by (simp_all add: ex_defs move_defs)
  have ne: "MoveDirectionInner \<noteq> MoveDirectionLeft"
    by (simp add: MoveDirectionInner_def MoveDirectionLeft_def)
  from second_move_with_reread_records [OF h l] second_move_with_reread_records [OF h i] ne h l i
  show ?thesis by blast
qed

text \<open>
  C8 as stated does not hold: with a parent record whose right bound (2) is older than the stored
  one (4), \<open>Create\<close> does not do what it does with the stored row; the new row is placed at
  the record's right bound.
\<close>

theorem stored_values_do_not_prevail:
  "find (\<lambda>r. ID r = ID (mkRow 1 None 0 1 2 0 (0::nat))) (rows staleParent)
     = Some (mkRow 1 None 0 1 4 1 0)
   \<and> Create staleParent (Model (mkRow 3 (Some 1) 0 0 0 0 0)) (Some (Model (mkRow 1 None 0 1 2 0 0)))
     \<noteq> Create staleParent (Model (mkRow 3 (Some 1) 0 0 0 0 0)) (Some (Model (mkRow 1 None 0 1 4 1 0)))
   \<and> last (rows (snd (Create staleParent (Model (mkRow 3 (Some 1) 0 0 0 0 0))
                          (Some (Model (mkRow 1 None 0 1 2 0 0))))))
     = mkRow 3 (Some 1) 1 2 3 0 0"
  by (simp add: Create_def Transaction_def sent_def staleParent_def mkRow_def Let_def)

text \<open>
  C8, amended. The coordinates are those of the records the caller passes; no record is read
  again. \<open>Create\<close> with a parent places the new row at the record's right bound and one level
  below the record's depth (the children count is incremented on the stored row), and \<open>MoveTo\<close>
  relocates with the left, right, depth and parent id of the two records.
\<close>

theorem records_are_not_reread:
  "last (rows (snd (Create d (Model s) (Some (Model p)))))
     = s\<lparr>Lft := Rgt p, Rgt := Rgt p + 1, Depth := Depth p + 1\<rparr>
   \<and> map ChildrenCount (butlast (rows (snd (Create d (Model s) (Some (Model p))))))
     = map (\<lambda>r. if ID r = ID p then ChildrenCount r + 1 else ChildrenCount r) (rows d)
   \<and> MoveTo d (Model n) (Model t) direction
     = moveToRightOfPosition (\<lambda>r. True)
         \<lparr>ID = ID n, ParentID = ParentID n, Depth = Depth n, Rgt = Rgt n, Lft = Lft n,
          ChildrenCount = ChildrenCount n,
          DbNames = {''id'', ''parent_id'', ''depth'', ''rgt'', ''lft'', ''children_count''}\<rparr>
         (if direction = MoveDirectionLeft then Lft t - 1
          else if direction = MoveDirectionRight then Rgt t else Lft t)
         (if direction = MoveDirectionLeft \<or> direction = MoveDirectionRight
          then Depth t - Depth n else Depth t + 1 - Depth n)
         (if direction = MoveDirectionLeft \<or> direction = MoveDirectionRight
          then ParentID t else Some (ID t)) d"
proof -
  have c1: "last (rows (snd (Create d (Model s) (Some (Model p)))))
     = s\<lparr>Lft := Rgt p, Rgt := Rgt p + 1, Depth := Depth p + 1\<rparr>"
    by (simp add: Create_def Transaction_def Let_def)
  have c2: "map ChildrenCount (butlast (rows (snd (Create d (Model s) (Some (Model p))))))
     = map (\<lambda>r. if ID r = ID p then ChildrenCount r + 1 else ChildrenCount r) (rows d)"
    by (simp add: Create_def Transaction_def Let_def comp_def)
  have c3: "MoveTo d (Model n) (Model t) direction
     = moveToRightOfPosition (\<lambda>r. True)
         \<lparr>ID = ID n, ParentID = ParentID n, Depth = Depth n, Rgt = Rgt n, Lft = Lft n,
          ChildrenCount = ChildrenCount n,
          DbNames = {''id'', ''parent_id'', ''depth'', ''rgt'', ''lft'', ''children_count''}\<rparr>
         (if direction = MoveDirectionLeft then Lft t - 1
          else if direction = MoveDirectionRight then Rgt t else Lft t)
         (if direction = MoveDirectionLeft \<or> direction = MoveDirectionRight
          then Depth t - Depth n else Depth t + 1 - Depth n)
         (if direction = MoveDirectionLeft \<or> direction = MoveDirectionRight
          then ParentID t else Some (ID t)) d"
    by (simp add: MoveTo_unfold parsed_def)
  from c1 c2 c3 show ?thesis by (intro conjI)
qed

text \<open>
  C9 as stated does not hold. The only record \<open>parseNode\<close> rejects is a value gorm cannot
  parse; the loop over the fields has no case for a missing tag and nothing is checked after
  it. A record whose fields for the two bounds carry no tag is parsed without an error, with
  both bounds zero and no column name for them: \<open>MoveTo\<close> opens its transaction and sends the
  read of the subtree ids, which the database refuses, so the error returned is the
  database's; \<open>Create\<close> without a parent sends the read of the largest right bound, takes
  its failure for an empty scope, inserts the record with the bounds it holds and returns
  success. A record whose \<open>parent_id\<close> tag is on a plain integer makes \<open>parseNode\<close> panic.
\<close>

theorem record_without_bound_tags_reaches_store:
  "MoveTo scenarioA (noBounds rowC) (Model rowB) MoveDirectionLeft
     = (Some StoreError, scenarioA\<lparr>stmts := [BEGIN, SELECT, ROLLBACK]\<rparr>)
   \<and> Create scenarioA (noBounds (mkRow 4 None 7 5 9 0 0)) None
     = (None, \<lparr>rows = [rowA, rowB, rowC, mkRow 4 None 0 5 9 0 0],
                stmts = [BEGIN, SELECT, INSERT, COMMIT]\<rparr>)
   \<and> MoveTo scenarioA (wrongParent rowC) (Model rowB) MoveDirectionLeft = (Some Panic, scenarioA)"
  by (simp add: ex_defs move_defs noBounds_def wrongParent_def schemaField_def parseNode_def
      Model_def formatSQL_def Create_def First_rgt_desc_def Create_row_def setFields_def)

text \<open>
  C9, amended. A value gorm cannot parse makes \<open>Create\<close> and \<open>MoveTo\<close> return the error of
  \<open>parseNode\<close>, and no statement that reads or writes a row is sent; this holds for the new
  record and the parent of \<open>Create\<close> and for both records of \<open>MoveTo\<close>. \<open>MoveTo\<close> parses
  before it opens its transaction and sends nothing; \<open>Create\<close> parses inside its transaction,
  which it has begun and rolls back. (When the other record is one \<open>parseNode\<close> fails on,
  the outcome is that failure.)
\<close>

theorem unparsed_value_no_row_read_or_written:
  "Create d NotAModel parent = (Some InvalidSource, d\<lparr>stmts := stmts d @ [BEGIN, ROLLBACK]\<rparr>)
   \<and> Create d src (Some NotAModel)
     = (Some (case parseNode src of Inl err \<Rightarrow> err | Inr x \<Rightarrow> InvalidSource),
        d\<lparr>stmts := stmts d @ [BEGIN, ROLLBACK]\<rparr>)
   \<and> MoveTo d NotAModel to direction = (Some InvalidSource, d)
   \<and> MoveTo d node NotAModel direction
     = (Some (case parseNode node of Inl err \<Rightarrow> err | Inr x \<Rightarrow> InvalidSource), d)"
  by (auto simp: Create_def MoveTo_def Transaction_def parseNode_def sent_def
      split: sum.splits source.splits)

text \<open>
  C10. When the reference's interval is strictly inside the node's, \<open>MoveTo\<close> makes no check:
  it returns success, and the relocation is carried out (the range shift is sent after the read
  of the subtree ids), whatever the direction. The table it leaves need not satisfy the
  invariants: in \<open>ownSubtree\<close> it does not.
\<close>

theorem MoveTo_into_own_subtree_succeeds:
  assumes "Lft n < Lft t" and "Lft t \<le> Rgt t" and "Rgt t < Rgt n"
  shows "fst (MoveTo d (Model n) (Model t) direction) = None
         \<and> (\<exists>rest. stmts (snd (MoveTo d (Model n) (Model t) direction))
                     = stmts d @ BEGIN # SELECT # UPDATE # rest)"
  using assms
  by (auto simp: MoveTo_def Let_def intro!: stmts_relocation [THEN conjunct1]
      stmts_relocation [THEN conjunct2])

theorem MoveTo_into_own_subtree_succeeds_witness:
  "Lft (mkRow 2 (Some 1) 1 2 7 2 (0::nat)) < Lft (mkRow 3 (Some 2) 2 3 4 0 (0::nat))
   \<and> Lft (mkRow 3 (Some 2) 2 3 4 0 (0::nat)) \<le> Rgt (mkRow 3 (Some 2) 2 3 4 0 (0::nat))
   \<and> Rgt (mkRow 3 (Some 2) 2 3 4 0 (0::nat)) < Rgt (mkRow 2 (Some 1) 1 2 7 2 (0::nat))
   \<and> invariants ownSubtree
   \<and> fst (MoveTo ownSubtree (Model (mkRow 2 (Some 1) 1 2 7 2 0))
             (Model (mkRow 3 (Some 2) 2 3 4 0 0)) MoveDirectionRight) = None
   \<and> (\<exists>rest. stmts (snd (MoveTo ownSubtree (Model (mkRow 2 (Some 1) 1 2 7 2 0))
                             (Model (mkRow 3 (Some 2) 2 3 4 0 0)) MoveDirectionRight))
               = stmts ownSubtree @ BEGIN # SELECT # UPDATE # rest)
   \<and> \<not> invariants (snd (MoveTo ownSubtree (Model (mkRow 2 (Some 1) 1 2 7 2 0))
                            (Model (mkRow 3 (Some 2) 2 3 4 0 0)) MoveDirectionRight))"
proof -
  have h: "Lft (mkRow 2 (Some 1) 1 2 7 2 (0::nat)) < Lft (mkRow 3 (Some 2) 2 3 4 0 (0::nat))"
    "Lft (mkRow 3 (Some 2) 2 3 4 0 (0::nat)) \<le> Rgt (mkRow 3 (Some 2) 2 3 4 0 (0::nat))"
    "Rgt (mkRow 3 (Some 2) 2 3 4 0 (0::nat)) < Rgt (mkRow 2 (Some 1) 1 2 7 2 (0::nat))"
    by (simp_all add: mkRow_def)
  have before: "invariants ownSubtree"
    by (simp add: ownSubtree_def mkRow_def invariants_def nestedSet_def disjointOrNested_def
        descendantCount_def)
  have after: "\<not> invariants (snd (MoveTo ownSubtree (Model (mkRow 2 (Some 1) 1 2 7 2 0))
                            (Model (mkRow 3 (Some 2) 2 3 4 0 0)) MoveDirectionRight))"
    by (simp add: ownSubtree_def mkRow_def invariants_def nestedSet_def disjointOrNested_def
        descendantCount_def move_defs)
  from h before after MoveTo_into_own_subtree_succeeds [OF h, of ownSubtree MoveDirectionRight]
  show ?thesis by blast
qed

end
